theory Spec2Isabelle
  imports Main "HOL-Library.Word"
begin

section \<open>JavaScript values\<close>

text \<open>
  The values the application reads out of responses are the results of
  \<^verbatim>\<open>response.json()\<close>. A number is kept as the decimal text JavaScript prints for it
  (what \<^verbatim>\<open>String(n)\<close> yields), so that no floating point arithmetic is needed. An object
  is the list of its members in the order of the text that was parsed. A property that is
  missing reads as \<^verbatim>\<open>undefined\<close>, which is \<open>None\<close> of \<open>json option\<close>.
\<close>

datatype json =
    JNull
  | JBool bool
  | JNum string
  | JStr string
  | JArr "json list"
  | JObj "(string \<times> json) list"

text \<open>
  What a \<^verbatim>\<open>throw\<close> statement or a rejected promise carries: an instance of
  \<^verbatim>\<open>Error\<close> with its message, or any other value.
\<close>

datatype thrown = Error_object string | Non_error

text \<open>\<^verbatim>\<open>Array.prototype.join\<close>.\<close>

fun join :: "'a list \<Rightarrow> 'a list list \<Rightarrow> 'a list" where
  "join sep [] = []"
| "join sep [x] = x"
| "join sep (x # y # ys) = x @ sep @ join sep (y # ys)"

text \<open>
  \<^verbatim>\<open>String(v)\<close>, the conversion \<^verbatim>\<open>new Error(v)\<close> applies to its argument. A string is
  itself. An array is its elements joined by commas, with \<^verbatim>\<open>null\<close> elements printed as
  nothing. Any other object prints as \<^verbatim>\<open>[object Object]\<close>, unless it has a member
  \<^verbatim>\<open>toString\<close> of its own: that member hides the inherited method and is not a
  function, and the conversion throws a TypeError (with the message of V8, the engine of
  the server). \<open>sequence\<close> stops at the first element whose conversion throws.
\<close>

fun sequence :: "(thrown + string) list \<Rightarrow> thrown + string list" where
  "sequence [] = Inr []"
| "sequence (Inl e # rs) = Inl e"
| "sequence (Inr s # rs) = (case sequence rs of Inl e \<Rightarrow> Inl e | Inr ss \<Rightarrow> Inr (s # ss))"

fun js_String :: "json \<Rightarrow> thrown + string" where
  "js_String JNull = Inr ''null''"
| "js_String (JBool b) = Inr (if b then ''true'' else ''false'')"
| "js_String (JNum n) = Inr n"
| "js_String (JStr s) = Inr s"
| "js_String (JArr xs) =
     (case sequence (map (\<lambda>x. if x = JNull then Inr [] else js_String x) xs) of
        Inl e \<Rightarrow> Inl e
      | Inr ss \<Rightarrow> Inr (join '','' ss))"
| "js_String (JObj fs) =
     (if ''toString'' \<in> set (map fst fs)
      then Inl (Error_object ''Cannot convert object to primitive value'')
      else Inr ''[object Object]'')"

text \<open>
  Reading the property \<open>k\<close> of a parsed value, for the two names the application reads
  (\<^verbatim>\<open>error\<close> and \<^verbatim>\<open>data\<close>): on \<^verbatim>\<open>null\<close> the read throws a TypeError (with V8's
  message), on a boolean, a number, a string or an array the
  property is \<^verbatim>\<open>undefined\<close>, on an object it is the member of that name, the last one when
  the parsed text repeated the name.
\<close>

definition null_property_message :: "string \<Rightarrow> string" where
  "null_property_message k = ''Cannot read properties of null (reading '' @ [CHR 0x27] @ k @ [CHR 0x27] @ '')''"

fun get_property :: "json \<Rightarrow> string \<Rightarrow> thrown + json option" where
  "get_property JNull k = Inl (Error_object (null_property_message k))"
| "get_property (JObj fs) k = Inr (map_of (rev fs) k)"
| "get_property v k = Inr None"

text \<open>The operator \<^verbatim>\<open>??\<close>: the right operand replaces \<^verbatim>\<open>undefined\<close> and \<^verbatim>\<open>null\<close> only.\<close>

fun nullish :: "json option \<Rightarrow> json \<Rightarrow> json" where
  "nullish None d = d"
| "nullish (Some JNull) d = d"
| "nullish (Some v) d = v"

text \<open>
  \<^verbatim>\<open>new Error(v)\<close>: the Error whose message is \<^verbatim>\<open>String(v)\<close> (\<open>Inr\<close>), or the exception
  of the conversion (\<open>Inl\<close>).
\<close>

definition new_Error :: "json \<Rightarrow> thrown + thrown" where
  "new_Error v = (case js_String v of Inl e \<Rightarrow> Inl e | Inr m \<Rightarrow> Inr (Error_object m))"

section \<open>Strings\<close>

text \<open>
  A JavaScript string is a sequence of UTF-16 code units, and nothing keeps a surrogate
  from standing alone in it. The texts a user types (the query and the status filter), the
  search parameters read from a URL and the URLs passed to \<^verbatim>\<open>fetch\<close> are kept as such
  sequences. Elsewhere a \<open>string\<close> stands for the JavaScript string whose code units are
  its characters; \<open>units\<close> gives it as a sequence of code units.
\<close>

type_synonym jstring = "16 word list"

definition units :: "string \<Rightarrow> jstring" where
  "units s = map (\<lambda>c. of_nat (of_char c)) s"

definition high_surrogate :: "16 word \<Rightarrow> bool" where
  "high_surrogate u \<longleftrightarrow> 0xD800 \<le> unat u \<and> unat u \<le> 0xDBFF"

definition low_surrogate :: "16 word \<Rightarrow> bool" where
  "low_surrogate u \<longleftrightarrow> 0xDC00 \<le> unat u \<and> unat u \<le> 0xDFFF"

text \<open>
  The code points of a string, as the conversion to a \<^verbatim>\<open>USVString\<close> reads them: a high
  surrogate followed by a low one is one code point beyond the basic plane, and a
  surrogate that is not part of such a pair is replaced by U+FFFD.
\<close>

definition lone :: "16 word \<Rightarrow> nat" where
  "lone u = (if high_surrogate u \<or> low_surrogate u then 0xFFFD else unat u)"

fun scalars :: "jstring \<Rightarrow> nat list" where
  "scalars [] = []"
| "scalars [u] = [lone u]"
| "scalars (u # v # rest) =
     (if high_surrogate u \<and> low_surrogate v
      then (0x10000 + (unat u - 0xD800) * 0x400 + (unat v - 0xDC00)) # scalars rest
      else lone u # scalars (v # rest))"

text \<open>A scalar value is a code point that is not a surrogate.\<close>

definition scalar_value :: "nat \<Rightarrow> bool" where
  "scalar_value cp \<longleftrightarrow> cp < 0x110000 \<and> (cp < 0xD800 \<or> 0xDFFF < cp)"

text \<open>The code units of a list of code points.\<close>

definition utf16_units :: "nat \<Rightarrow> jstring" where
  "utf16_units cp =
     (if cp < 0x10000 then [of_nat cp]
      else [of_nat (0xD800 + (cp - 0x10000) div 0x400), of_nat (0xDC00 + (cp - 0x10000) mod 0x400)])"

definition utf16 :: "nat list \<Rightarrow> jstring" where
  "utf16 cps = concat (map utf16_units cps)"

text \<open>
  The conversion of a string to a \<^verbatim>\<open>USVString\<close>, which the methods of
  \<^verbatim>\<open>URLSearchParams\<close> apply to their arguments.
\<close>

definition USVString :: "jstring \<Rightarrow> jstring" where
  "USVString s = utf16 (scalars s)"

text \<open>A string is well formed when no surrogate in it stands alone.\<close>

fun well_formed :: "jstring \<Rightarrow> bool" where
  "well_formed [] \<longleftrightarrow> True"
| "well_formed [u] \<longleftrightarrow> \<not> high_surrogate u \<and> \<not> low_surrogate u"
| "well_formed (u # v # rest) \<longleftrightarrow>
     (if high_surrogate u then low_surrogate v \<and> well_formed rest
      else \<not> low_surrogate u \<and> well_formed (v # rest))"

text \<open>The UTF-8 bytes of a code point.\<close>

definition utf8_bytes :: "nat \<Rightarrow> string" where
  "utf8_bytes cp =
     (if cp < 0x80 then [char_of cp]
      else if cp < 0x800 then [char_of (0xC0 + cp div 64), char_of (0x80 + cp mod 64)]
      else if cp < 0x10000 then
        [char_of (0xE0 + cp div 4096), char_of (0x80 + cp div 64 mod 64), char_of (0x80 + cp mod 64)]
      else
        [char_of (0xF0 + cp div 262144), char_of (0x80 + cp div 4096 mod 64),
         char_of (0x80 + cp div 64 mod 64), char_of (0x80 + cp mod 64)])"

definition utf8_encode :: "nat list \<Rightarrow> string" where
  "utf8_encode cps = concat (map utf8_bytes cps)"

text \<open>
  The UTF-8 decoder of the Encoding standard, with replacement. Its state is the code
  point read so far, the number of bytes still needed and the bounds of the next byte. A
  byte that cannot start a sequence gives U+FFFD; a byte outside the bounds ends the
  sequence with U+FFFD and is read again as a first byte; an input that ends inside a
  sequence gives U+FFFD.
\<close>

fun utf8_decoder :: "nat \<Rightarrow> nat \<Rightarrow> nat \<Rightarrow> nat \<Rightarrow> string \<Rightarrow> nat list" where
  "utf8_decoder cp needed lower upper [] = (if needed = 0 then [] else [0xFFFD])"
| "utf8_decoder cp needed lower upper (c # cs) =
     (let b = (of_char c :: nat) in
      if needed = 0 then
        (if b \<le> 0x7F then b # utf8_decoder 0 0 0x80 0xBF cs
         else if 0xC2 \<le> b \<and> b \<le> 0xDF then utf8_decoder (b - 0xC0) 1 0x80 0xBF cs
         else if 0xE0 \<le> b \<and> b \<le> 0xEF then
           utf8_decoder (b - 0xE0) 2 (if b = 0xE0 then 0xA0 else 0x80)
             (if b = 0xED then 0x9F else 0xBF) cs
         else if 0xF0 \<le> b \<and> b \<le> 0xF4 then
           utf8_decoder (b - 0xF0) 3 (if b = 0xF0 then 0x90 else 0x80)
             (if b = 0xF4 then 0x8F else 0xBF) cs
         else 0xFFFD # utf8_decoder 0 0 0x80 0xBF cs)
      else if b < lower \<or> upper < b then 0xFFFD # utf8_decoder 0 0 0x80 0xBF (c # cs)
      else if needed = 1 then (cp * 64 + (b - 0x80)) # utf8_decoder 0 0 0x80 0xBF cs
      else utf8_decoder (cp * 64 + (b - 0x80)) (needed - 1) 0x80 0xBF cs)"

definition utf8_decode :: "string \<Rightarrow> nat list" where
  "utf8_decode bs = utf8_decoder 0 0 0x80 0xBF bs"

section \<open>The data model (types/todo.ts)\<close>

text \<open>
  The status is the union of the two string literals; \<open>status_text\<close> gives the string.
  The field \<^verbatim>\<open>id\<close> is \<open>todo_id\<close> here (\<open>id\<close> is the identity function of HOL).
\<close>

datatype todo_status = Pending | Completed

fun status_text :: "todo_status \<Rightarrow> string" where
  "status_text Pending = ''pending''"
| "status_text Completed = ''completed''"

record Todo =
  todo_id :: string
  task :: string
  status :: todo_status
  createdAt :: "string option"
  updatedAt :: "string option"

text \<open>\<^verbatim>\<open>Partial<Todo>\<close>: every field may be missing.\<close>

record partial_Todo =
  p_id :: "string option"
  p_task :: "string option"
  p_status :: "todo_status option"
  p_createdAt :: "string option"
  p_updatedAt :: "string option"

text \<open>
  The value \<^verbatim>\<open>JSON.stringify\<close> writes for a partial todo: the members that are present.
\<close>

definition json_member :: "string \<Rightarrow> string option \<Rightarrow> (string \<times> json) list" where
  "json_member k v = (case v of None \<Rightarrow> [] | Some s \<Rightarrow> [(k, JStr s)])"

definition json_of_partial :: "partial_Todo \<Rightarrow> json" where
  "json_of_partial t =
     JObj (json_member ''id'' (p_id t) @ json_member ''task'' (p_task t)
           @ json_member ''status'' (map_option status_text (p_status t))
           @ json_member ''createdAt'' (p_createdAt t) @ json_member ''updatedAt'' (p_updatedAt t))"

section \<open>The server: network, console and cache (actions/todo-actions.ts)\<close>

text \<open>
  A request as \<^verbatim>\<open>fetch(url, init)\<close> receives it; the body is kept as the value that
  \<^verbatim>\<open>JSON.stringify\<close> serialises. Of a response the code reads \<^verbatim>\<open>ok\<close> and the result of
  \<^verbatim>\<open>json()\<close>, which is the parsed body or a rejection (the body is not JSON).
\<close>

record request =
  url :: jstring
  http_method :: string
  headers :: "(string \<times> string) list"
  body :: "json option"

record response =
  ok :: bool
  json_body :: "thrown + json"

datatype fetch_outcome = Rejects thrown | Resolves response

type_synonym network = "request \<Rightarrow> fetch_outcome"

text \<open>
  What the server process accumulates: the requests sent, the values logged to the
  console, and the paths passed to \<^verbatim>\<open>revalidatePath\<close> (the invalidation signal).
\<close>

record server =
  sent :: "request list"
  logged :: "json list"
  revalidated :: "string list"

definition fetch :: "network \<Rightarrow> request \<Rightarrow> server \<Rightarrow> fetch_outcome \<times> server" where
  "fetch net rq sv = (net rq, sv\<lparr>sent := sent sv @ [rq]\<rparr>)"

definition console_log :: "json \<Rightarrow> server \<Rightarrow> server" where
  "console_log v sv = sv\<lparr>logged := logged sv @ [v]\<rparr>"

definition revalidatePath :: "string \<Rightarrow> server \<Rightarrow> server" where
  "revalidatePath p sv = sv\<lparr>revalidated := revalidated sv @ [p]\<rparr>"

text \<open>\<^verbatim>\<open>${process.env.BASE_URL}\<close>: a variable that is not set prints as \<^verbatim>\<open>undefined\<close>.\<close>

definition base_text :: "string option \<Rightarrow> string" where
  "base_text env = (case env of None \<Rightarrow> ''undefined'' | Some b \<Rightarrow> b)"

record action_result =
  success :: bool
  error :: "string option"

text \<open>
  The statements that follow the \<^verbatim>\<open>fetch\<close> inside the \<^verbatim>\<open>try\<close> block, the same text in
  the three actions: parse the body, log it, throw on a response that is not ok, else
  revalidate the path \<^verbatim>\<open>/\<close> and return success. \<open>Inl\<close> is an exception leaving the block.
\<close>

definition after_fetch :: "fetch_outcome \<Rightarrow> server \<Rightarrow> (thrown + action_result) \<times> server" where
  "after_fetch outcome sv =
     (case outcome of
        Rejects e \<Rightarrow> (Inl e, sv)
      | Resolves response \<Rightarrow>
          (case json_body response of
             Inl e \<Rightarrow> (Inl e, sv)
           | Inr result \<Rightarrow>
               let sv1 = console_log result sv in
               if \<not> ok response then
                 (case get_property result ''error'' of
                    Inl e \<Rightarrow> (Inl e, sv1)
                  | Inr v \<Rightarrow>
                      (case new_Error (nullish v (JStr ''Unable to create todo'')) of
                         Inl e \<Rightarrow> (Inl e, sv1)
                       | Inr err \<Rightarrow> (Inl err, sv1)))
               else (Inr \<lparr>success = True, error = None\<rparr>, revalidatePath ''/'' sv1)))"

text \<open>The \<^verbatim>\<open>catch\<close> block, the same text in the three actions.\<close>

definition caught_message :: "thrown \<Rightarrow> string" where
  "caught_message e = (case e of Error_object m \<Rightarrow> m | Non_error \<Rightarrow> ''Internal server error'')"

definition catch_block :: "thrown \<Rightarrow> action_result" where
  "catch_block e = \<lparr>success = False, error = Some (caught_message e)\<rparr>"

definition try_catch :: "(thrown + action_result) \<times> server \<Rightarrow> (thrown + action_result) \<times> server" where
  "try_catch r = (case r of (Inl e, sv) \<Rightarrow> (Inr (catch_block e), sv) | (Inr v, sv) \<Rightarrow> (Inr v, sv))"

definition json_headers :: "(string \<times> string) list" where
  "json_headers = [(''Content-Type'', ''application/json'')]"

definition createTodo_request :: "string option \<Rightarrow> partial_Todo \<Rightarrow> request" where
  "createTodo_request env t =
     \<lparr>url = units (base_text env @ ''/items''), http_method = ''POST'', headers = json_headers,
      body = Some (json_of_partial t)\<rparr>"

definition createTodo ::
  "network \<Rightarrow> string option \<Rightarrow> partial_Todo \<Rightarrow> server \<Rightarrow> (thrown + action_result) \<times> server" where
  "createTodo net env t sv =
     try_catch (let (outcome, sv1) = fetch net (createTodo_request env t) sv
                in after_fetch outcome sv1)"

definition removeTodo_request :: "string option \<Rightarrow> string \<Rightarrow> request" where
  "removeTodo_request env i =
     \<lparr>url = units (base_text env @ ''/items/'' @ i), http_method = ''DELETE'', headers = json_headers,
      body = None\<rparr>"

definition removeTodo ::
  "network \<Rightarrow> string option \<Rightarrow> string \<Rightarrow> server \<Rightarrow> (thrown + action_result) \<times> server" where
  "removeTodo net env i sv =
     try_catch (let (outcome, sv1) = fetch net (removeTodo_request env i) sv
                in after_fetch outcome sv1)"

text \<open>\<^verbatim>\<open>status === "pending" ? "completed" : "pending"\<close>, on any string.\<close>

definition toggled :: "string \<Rightarrow> string" where
  "toggled s = (if s = ''pending'' then ''completed'' else ''pending'')"

definition updateTodoStatus_request :: "string option \<Rightarrow> string \<Rightarrow> string \<Rightarrow> request" where
  "updateTodoStatus_request env i s =
     \<lparr>url = units (base_text env @ ''/items/'' @ i), http_method = ''PUT'', headers = json_headers,
      body = Some (JObj [(''status'', JStr (toggled s))])\<rparr>"

definition updateTodoStatus ::
  "network \<Rightarrow> string option \<Rightarrow> string \<Rightarrow> string \<Rightarrow> server \<Rightarrow> (thrown + action_result) \<times> server" where
  "updateTodoStatus net env i s sv =
     try_catch (let (outcome, sv1) = fetch net (updateTodoStatus_request env i s) sv
                in after_fetch outcome sv1)"

section \<open>The list component (app/_components/todo-list.tsx)\<close>

text \<open>
  The component's props (\<open>todos\<close>, the list the page fetched), its two pieces of state
  (\<open>todo\<close>, the staged new task, and \<open>loading\<close>) and the notifications it has shown
  with \<^verbatim>\<open>toast\<close>.
\<close>

datatype toast = Toast_error string | Toast_success string

record ui =
  todos :: "Todo list"
  todo :: partial_Todo
  loading :: bool
  toasts :: "toast list"

definition staged :: "string \<Rightarrow> partial_Todo" where
  "staged v =
     \<lparr>p_id = None, p_task = Some v, p_status = Some Pending, p_createdAt = None,
      p_updatedAt = None\<rparr>"

definition TodoList_initial :: "Todo list \<Rightarrow> ui" where
  "TodoList_initial ts = \<lparr>todos = ts, todo = staged [], loading = False, toasts = []\<rparr>"

text \<open>The input's \<^verbatim>\<open>onChange\<close>.\<close>

definition input_change :: "string \<Rightarrow> ui \<Rightarrow> ui" where
  "input_change v u = u\<lparr>todo := staged v\<rparr>"

definition toast_error :: "string \<Rightarrow> ui \<Rightarrow> ui" where
  "toast_error m u = u\<lparr>toasts := toasts u @ [Toast_error m]\<rparr>"

definition toast_success :: "string \<Rightarrow> ui \<Rightarrow> ui" where
  "toast_success m u = u\<lparr>toasts := toasts u @ [Toast_success m]\<rparr>"

text \<open>
  \<^verbatim>\<open>addTodo\<close>, the click handler of the Add button. The first component of the result
  is \<open>Inl\<close> when the handler's promise rejects (the awaited action threw).
\<close>

definition addTodo ::
  "network \<Rightarrow> string option \<Rightarrow> ui \<times> server \<Rightarrow> (thrown + unit) \<times> ui \<times> server" where
  "addTodo net env st =
     (case st of (u, sv) \<Rightarrow>
        let u1 = u\<lparr>loading := True\<rparr> in
        (case createTodo net env (todo u) sv of
           (Inl e, sv1) \<Rightarrow> (Inl e, u1, sv1)
         | (Inr result, sv1) \<Rightarrow>
             if \<not> success result then (Inr (), toast_error ''Todo not added!'' u1, sv1)
             else
               let u2 = toast_success ''Todo added!'' u1;
                   u3 = u2\<lparr>loading := False\<rparr>;
                   u4 = u3\<lparr>todo := staged []\<rparr>
               in (Inr (), u4, sv1)))"

text \<open>
  The click handlers of a row's two buttons:
  \<^verbatim>\<open>() => updateTodoStatus(t.id, t.status)\<close> and \<^verbatim>\<open>() => removeTodo(t.id)\<close>. The promise
  the action returns is dropped.
\<close>

definition toggle_click :: "network \<Rightarrow> string option \<Rightarrow> Todo \<Rightarrow> ui \<times> server \<Rightarrow> ui \<times> server" where
  "toggle_click net env t st =
     (case st of (u, sv) \<Rightarrow>
        (u, snd (updateTodoStatus net env (todo_id t) (status_text (status t)) sv)))"

definition delete_click :: "network \<Rightarrow> string option \<Rightarrow> Todo \<Rightarrow> ui \<times> server \<Rightarrow> ui \<times> server" where
  "delete_click net env t st =
     (case st of (u, sv) \<Rightarrow> (u, snd (removeTodo net env (todo_id t) sv)))"

text \<open>
  What the component renders: the input, the Add button's icon, and either the empty
  state or one row per todo. A button's handler is kept as the arguments it passes to its
  action.
\<close>

datatype icon = Loader2 | Plus | CircleCheck | CircleXIcon | Trash | FolderClosed

record row =
  row_key :: string
  row_text :: string
  toggle_class :: string
  toggle_title :: string
  toggle_icon :: icon
  toggle_args :: "string \<times> todo_status"
  delete_icon :: icon
  delete_arg :: string

datatype list_area = Empty icon string string | Rows "row list"

record view =
  input_value :: "string option"
  add_icon :: icon
  area :: list_area

definition render_row :: "Todo \<Rightarrow> row" where
  "render_row t =
     \<lparr>row_key = todo_id t,
      row_text = task t,
      toggle_class =
        (if status t = Completed then ''bg-green-50 hover:bg-green-200 text-green-700''
         else ''bg-amber-50 hover:bg-amber-200 text-amber-700''),
      toggle_title = (if status t = Completed then ''Mark as pending'' else ''Mark as completed''),
      toggle_icon = (if status t = Completed then CircleCheck else CircleXIcon),
      toggle_args = (todo_id t, status t),
      delete_icon = Trash,
      delete_arg = todo_id t\<rparr>"

definition render_list :: "Todo list \<Rightarrow> list_area" where
  "render_list ts =
     (if length ts = 0 then
        Empty FolderClosed ''Nothing Yet''
          (''You haven'' @ [CHR 0x27] @ ''t created any to-dos yet. Get started by creating your first to-do.'')
      else Rows (map render_row ts))"

definition TodoList :: "ui \<Rightarrow> view" where
  "TodoList u =
     \<lparr>input_value = p_task (todo u),
      add_icon = (if loading u then Loader2 else Plus),
      area = render_list (todos u)\<rparr>"

section \<open>The page (app/page.tsx)\<close>

text \<open>
  A search parameter as the framework hands it to the page: a string, or an array of
  strings when the URL repeats the name; a name the URL does not carry is
  \<^verbatim>\<open>undefined\<close>. A template literal prints an array as its elements joined by commas.
\<close>

datatype param = One jstring | Many "jstring list"

type_synonym searchParams = "string \<Rightarrow> param option"

fun template_text :: "param \<Rightarrow> jstring" where
  "template_text (One s) = s"
| "template_text (Many ss) = join (units '','') ss"

text \<open>\<^verbatim>\<open>v ?? ""\<close> on a search parameter.\<close>

definition or_empty :: "param option \<Rightarrow> param" where
  "or_empty v = (case v of None \<Rightarrow> One [] | Some p \<Rightarrow> p)"

text \<open>
  What \<^verbatim>\<open>Home\<close> returns: the error panel (its heading and its text) or the list component
  with the \<^verbatim>\<open>data\<close> member of the parsed body as its \<^verbatim>\<open>todos\<close>.
\<close>

datatype element = Error_panel string string | TodoList_element "json option"

definition Home_request :: "string option \<Rightarrow> searchParams \<Rightarrow> request" where
  "Home_request env sp =
     \<lparr>url = units (base_text env) @ units ''/items?query='' @ template_text (or_empty (sp ''query''))
              @ units ''&status='' @ template_text (or_empty (sp ''status'')),
      http_method = ''GET'', headers = [], body = None\<rparr>"

definition Home ::
  "network \<Rightarrow> string option \<Rightarrow> searchParams \<Rightarrow> server \<Rightarrow> (thrown + element) \<times> server" where
  "Home net env sp sv =
     (let (outcome, sv1) = fetch net (Home_request env sp) sv in
      case outcome of
        Rejects e \<Rightarrow> (Inl e, sv1)
      | Resolves response \<Rightarrow>
          if \<not> ok response then
            (Inr (Error_panel ''Something went wrong''
                    ''Unable to fetch todos. Please try again or check the console for more details.''),
             sv1)
          else
            (case json_body response of
               Inl e \<Rightarrow> (Inl e, sv1)
             | Inr result \<Rightarrow>
                 (case get_property result ''data'' of
                    Inl e \<Rightarrow> (Inl e, sv1)
                  | Inr d \<Rightarrow> (Inr (TodoList_element d), sv1))))"

section \<open>Query strings\<close>

text \<open>
  \<^verbatim>\<open>URLSearchParams\<close> is a list of name and value pairs, each a \<^verbatim>\<open>USVString\<close>.
  \<^verbatim>\<open>toString()\<close> writes it in the form \<^verbatim>\<open>application/x-www-form-urlencoded\<close>: the
  UTF-8 bytes of a name or value, with a space written as \<^verbatim>\<open>+\<close> and every byte outside
  the set \<open>unreserved\<close> as a percent sign and two hexadecimal digits. What it writes is
  made of ASCII characters and is kept as a \<open>string\<close>. The framework reads the query
  string of a URL back with the parser of the same form: it splits at \<^verbatim>\<open>&\<close> and at the
  first \<^verbatim>\<open>=\<close>, turns \<^verbatim>\<open>+\<close> into a space, decodes the percent escapes into bytes and
  decodes the bytes as UTF-8.
\<close>

definition unreserved :: "char \<Rightarrow> bool" where
  "unreserved c \<longleftrightarrow>
     c \<in> set ''*-._0123456789ABCDEFGHIJKLMNOPQRSTUVWXYZabcdefghijklmnopqrstuvwxyz''"

definition hex_digit :: "nat \<Rightarrow> char" where
  "hex_digit n = ''0123456789ABCDEF'' ! (n mod 16)"

definition encode_byte :: "char \<Rightarrow> string" where
  "encode_byte c =
     (if c = CHR '' '' then ''+''
      else if unreserved c then [c]
      else [CHR ''%'', hex_digit (of_char c div 16), hex_digit (of_char c mod 16)])"

definition encode :: "jstring \<Rightarrow> string" where
  "encode s = concat (map encode_byte (utf8_encode (scalars s)))"

definition hex_value :: "char \<Rightarrow> nat option" where
  "hex_value c =
     (let n = (of_char c :: nat) in
      if 48 \<le> n \<and> n \<le> 57 then Some (n - 48)
      else if 65 \<le> n \<and> n \<le> 70 then Some (n - 55)
      else if 97 \<le> n \<and> n \<le> 102 then Some (n - 87)
      else None)"

fun percent_decode :: "string \<Rightarrow> string" where
  "percent_decode [] = []"
| "percent_decode (c # cs) =
     (if c = CHR ''+'' then CHR '' '' # percent_decode cs
      else if c = CHR ''%'' then
        (case cs of
           h # l # rest \<Rightarrow>
             (case (hex_value h, hex_value l) of
                (Some a, Some b) \<Rightarrow> char_of (16 * a + b) # percent_decode rest
              | _ \<Rightarrow> c # percent_decode cs)
         | _ \<Rightarrow> c # percent_decode cs)
      else c # percent_decode cs)"

definition decode :: "string \<Rightarrow> jstring" where
  "decode s = utf16 (utf8_decode (percent_decode s))"

fun split_on :: "char \<Rightarrow> string \<Rightarrow> string list" where
  "split_on sep [] = [[]]"
| "split_on sep (c # cs) =
     (if c = sep then [] # split_on sep cs
      else (case split_on sep cs of [] \<Rightarrow> [[c]] | p # ps \<Rightarrow> (c # p) # ps))"

definition serialize_pair :: "jstring \<times> jstring \<Rightarrow> string" where
  "serialize_pair p = encode (fst p) @ ''='' @ encode (snd p)"

definition serialize :: "(jstring \<times> jstring) list \<Rightarrow> string" where
  "serialize ps = join ''&'' (map serialize_pair ps)"

definition parse_pair :: "string \<Rightarrow> jstring \<times> jstring" where
  "parse_pair s =
     (decode (takeWhile (\<lambda>c. c \<noteq> CHR ''='') s),
      decode (drop 1 (dropWhile (\<lambda>c. c \<noteq> CHR ''='') s)))"

definition parse_urlencoded :: "string \<Rightarrow> (jstring \<times> jstring) list" where
  "parse_urlencoded s = map parse_pair (filter (\<lambda>x. x \<noteq> []) (split_on CHR ''&'' s))"

text \<open>
  \<^verbatim>\<open>URLSearchParams.set\<close>: the name and the value are converted to \<^verbatim>\<open>USVString\<close>; the
  first pair of that name takes the value and the others go; a new name is appended.
\<close>

fun set_pair :: "jstring \<Rightarrow> jstring \<Rightarrow> (jstring \<times> jstring) list \<Rightarrow> (jstring \<times> jstring) list" where
  "set_pair k v [] = [(k, v)]"
| "set_pair k v (p # ps) =
     (if fst p = k then (k, v) # filter (\<lambda>x. fst x \<noteq> k) ps else p # set_pair k v ps)"

definition params_set ::
  "jstring \<Rightarrow> jstring \<Rightarrow> (jstring \<times> jstring) list \<Rightarrow> (jstring \<times> jstring) list" where
  "params_set k v ps = set_pair (USVString k) (USVString v) ps"

text \<open>
  The query string of a URL (between the first \<^verbatim>\<open>?\<close> and the fragment) and the search
  parameters the framework builds from it for the page; \<open>k\<close> is the name of the property
  the page reads.
\<close>

definition query_string :: "string \<Rightarrow> string" where
  "query_string u =
     drop 1 (dropWhile (\<lambda>c. c \<noteq> CHR ''?'') (takeWhile (\<lambda>c. c \<noteq> CHR ''#'') u))"

definition searchParams_of_url :: "string \<Rightarrow> searchParams" where
  "searchParams_of_url u k =
     (case map snd (filter (\<lambda>p. fst p = units k) (parse_urlencoded (query_string u))) of
        [] \<Rightarrow> None
      | [v] \<Rightarrow> Some (One v)
      | vs \<Rightarrow> Some (Many vs))"

section \<open>The filter synchronizer (the effect of the README)\<close>

text \<open>
  The router keeps the history entries behind the current one and the current URL;
  \<^verbatim>\<open>router.replace\<close> overwrites the current entry and adds none. \<open>replaced\<close> logs the
  calls.
\<close>

record router =
  behind :: "string list"
  current :: string
  replaced :: "string list"

definition router_replace :: "string \<Rightarrow> router \<Rightarrow> router" where
  "router_replace u r = r\<lparr>current := u, replaced := replaced r @ [u]\<rparr>"

text \<open>
  The callback passed to \<^verbatim>\<open>setTimeout\<close>, on the \<open>query\<close> and \<open>status\<close> its closure
  captured.
\<close>

definition commit_params :: "jstring \<Rightarrow> jstring \<Rightarrow> (jstring \<times> jstring) list" where
  "commit_params q s =
     (let params = [];
          params = (if length q > 0 then params_set (units ''query'') q params else params);
          params = (if length s > 0 then params_set (units ''status'') s params else params)
      in params)"

definition commit_url :: "jstring \<Rightarrow> jstring \<Rightarrow> string" where
  "commit_url q s = ''/?'' @ serialize (commit_params q s)"

definition commit :: "jstring \<Rightarrow> jstring \<Rightarrow> router \<Rightarrow> router" where
  "commit q s r = router_replace (commit_url q s) r"

text \<open>
  The timers of the page. \<^verbatim>\<open>setTimeout\<close> adds a timer under a fresh handle, with its
  delay in milliseconds and the values its callback captured; it does not touch the
  timers that are there. \<^verbatim>\<open>clearTimeout\<close> removes the timer of a handle.
\<close>

record timeout_entry =
  handle :: nat
  remaining :: nat
  cb_query :: jstring
  cb_status :: jstring

text \<open>
  The component: its states \<open>query\<close> and \<open>status\<close> (\<open>filter_status\<close> here), the timers,
  the next free handle, the handle \<open>debounce\<close> that the cleanup of the last run of the
  effect holds, and the router.
\<close>

record sync =
  query :: jstring
  filter_status :: jstring
  timers :: "timeout_entry list"
  next_handle :: nat
  debounce :: "nat option"
  nav :: router

definition setTimeout :: "nat \<Rightarrow> jstring \<Rightarrow> jstring \<Rightarrow> sync \<Rightarrow> nat \<times> sync" where
  "setTimeout delay q v s =
     (next_handle s,
      s\<lparr>timers := timers s @ [\<lparr>handle = next_handle s, remaining = delay, cb_query = q, cb_status = v\<rparr>],
        next_handle := Suc (next_handle s)\<rparr>)"

definition clearTimeout :: "nat \<Rightarrow> sync \<Rightarrow> sync" where
  "clearTimeout h s = s\<lparr>timers := filter (\<lambda>t. handle t \<noteq> h) (timers s)\<rparr>"

text \<open>
  The effect's body sets a timeout of 500 ms and keeps its handle for the cleanup it
  returns; the cleanup clears that timeout.
\<close>

definition effect :: "sync \<Rightarrow> sync" where
  "effect s =
     (let (h, s1) = setTimeout 500 (query s) (filter_status s) s in s1\<lparr>debounce := Some h\<rparr>)"

definition cleanup :: "sync \<Rightarrow> sync" where
  "cleanup s = (case debounce s of None \<Rightarrow> s | Some h \<Rightarrow> clearTimeout h s)"

text \<open>
  Mounting runs the effect once. A state setter renders again, and when a dependency of
  \<^verbatim>\<open>[query, status]\<close> changed, the cleanup of the last run and then the effect run again;
  setting a state to the value it has changes nothing. Unmounting runs the cleanup.
\<close>

definition mount :: "jstring \<Rightarrow> jstring \<Rightarrow> router \<Rightarrow> sync" where
  "mount q s r =
     effect \<lparr>query = q, filter_status = s, timers = [], next_handle = 0, debounce = None, nav = r\<rparr>"

definition unmount :: "sync \<Rightarrow> sync" where
  "unmount s = cleanup s"

definition setQuery :: "jstring \<Rightarrow> sync \<Rightarrow> sync" where
  "setQuery q s = (if q = query s then s else effect (cleanup (s\<lparr>query := q\<rparr>)))"

definition setStatus :: "jstring \<Rightarrow> sync \<Rightarrow> sync" where
  "setStatus v s = (if v = filter_status s then s else effect (cleanup (s\<lparr>filter_status := v\<rparr>)))"

text \<open>
  \<open>d\<close> milliseconds pass with no edit. Every timer that has no more than \<open>d\<close> left
  fires, the earliest first and of two with the same time left the one set first; its
  callback commits and it is gone. The other timers have \<open>d\<close> less left.
\<close>

definition fire :: "router \<Rightarrow> timeout_entry \<Rightarrow> router" where
  "fire r t = commit (cb_query t) (cb_status t) r"

definition elapse :: "nat \<Rightarrow> sync \<Rightarrow> sync" where
  "elapse d s =
     s\<lparr>timers := map (\<lambda>t. t\<lparr>remaining := remaining t - d\<rparr>) (filter (\<lambda>t. d < remaining t) (timers s)),
       nav := foldl fire (nav s) (sort_key remaining (filter (\<lambda>t. remaining t \<le> d) (timers s)))\<rparr>"

text \<open>
  An edit of one of the two controls; a run of edits, each after a gap; and a history
  of the component: edits and waits in any order.
\<close>

datatype edit = Edit_query jstring | Edit_status jstring

fun apply_edit :: "edit \<Rightarrow> sync \<Rightarrow> sync" where
  "apply_edit (Edit_query q) s = setQuery q s"
| "apply_edit (Edit_status v) s = setStatus v s"

fun changes :: "edit \<Rightarrow> sync \<Rightarrow> bool" where
  "changes (Edit_query q) s \<longleftrightarrow> q \<noteq> query s"
| "changes (Edit_status v) s \<longleftrightarrow> v \<noteq> filter_status s"

fun run :: "(nat \<times> edit) list \<Rightarrow> sync \<Rightarrow> sync" where
  "run [] s = s"
| "run ((gap, e) # es) s = run es (apply_edit e (elapse gap s))"

datatype event = Edit edit | Wait nat

fun step :: "event \<Rightarrow> sync \<Rightarrow> sync" where
  "step (Edit e) s = apply_edit e s"
| "step (Wait d) s = elapse d s"

fun history :: "event list \<Rightarrow> sync \<Rightarrow> sync" where
  "history [] s = s"
| "history (ev # evs) s = history evs (step ev s)"

text \<open>
  A burst: every edit changes its field and comes less than 500 ms after the one
  before it.
\<close>

fun burst :: "(nat \<times> edit) list \<Rightarrow> sync \<Rightarrow> bool" where
  "burst [] s \<longleftrightarrow> True"
| "burst ((gap, e) # es) s \<longleftrightarrow>
     gap < 500 \<and> changes e (elapse gap s) \<and> burst es (apply_edit e (elapse gap s))"

text \<open>
  The values the two states hold after a list of edits: each edit overwrites the state
  it sets, so the last edit of a field decides it.
\<close>

fun final_values :: "edit list \<Rightarrow> jstring \<times> jstring \<Rightarrow> jstring \<times> jstring" where
  "final_values [] f = f"
| "final_values (Edit_query q # es) f = final_values es (q, snd f)"
| "final_values (Edit_status v # es) f = final_values es (fst f, v)"


text \<open>
  Two states of the timers that the component keeps to: every pending timer is the one
  whose handle the cleanup holds (\<open>owned\<close>), and, after an edit, exactly one timer is
  pending, with its full delay and the present values of the two states (\<open>armed\<close>).
\<close>

definition owned :: "sync \<Rightarrow> bool" where
  "owned s \<longleftrightarrow> list_all (\<lambda>t. debounce s = Some (handle t)) (timers s)"

definition armed :: "sync \<Rightarrow> bool" where
  "armed s \<longleftrightarrow>
     (case timers s of
        [t] \<Rightarrow> remaining t = 500 \<and> cb_query t = query s \<and> cb_status t = filter_status s \<and>
               debounce s = Some (handle t)
      | _ \<Rightarrow> False)"

section \<open>Properties of the write actions\<close>

text \<open>
  What a write action returns, and what it leaves on the server, depends only on the
  outcome of its one request; the three actions share the statements after the
  \<^verbatim>\<open>fetch\<close> and the \<^verbatim>\<open>catch\<close> block.
\<close>

lemma try_after_fetch_result:
  "fst (try_catch (after_fetch out sv)) =
     Inr (case out of
            Rejects e \<Rightarrow> \<lparr>success = False, error = Some (caught_message e)\<rparr>
          | Resolves resp \<Rightarrow>
              (case json_body resp of
                 Inl e \<Rightarrow> \<lparr>success = False, error = Some (caught_message e)\<rparr>
               | Inr result \<Rightarrow>
                   if ok resp then \<lparr>success = True, error = None\<rparr>
                   else
                     \<lparr>success = False,
                      error = Some
                        (case result of
                           JNull \<Rightarrow> null_property_message ''error''
                         | JObj fs \<Rightarrow>
                             (case map_of (rev fs) ''error'' of
                                None \<Rightarrow> ''Unable to create todo''
                              | Some JNull \<Rightarrow> ''Unable to create todo''
                              | Some v \<Rightarrow>
                                  (case js_String v of Inl e \<Rightarrow> caught_message e | Inr m \<Rightarrow> m))
                         | _ \<Rightarrow> ''Unable to create todo'')\<rparr>))"
  by (cases out)
    (auto simp: try_catch_def after_fetch_def catch_block_def caught_message_def new_Error_def
      Let_def split: sum.splits thrown.splits json.splits option.splits)

lemma try_after_fetch_shape:
  "\<exists>r sv'. try_catch (after_fetch out sv) = (Inr r, sv') \<and> (error r = None) = success r"
  by (cases out)
    (auto simp: try_catch_def after_fetch_def catch_block_def new_Error_def Let_def
      split: sum.splits thrown.splits option.splits)

lemma try_after_fetch_revalidated:
  "revalidated (snd (try_catch (after_fetch out sv))) =
     revalidated sv @
       (if fst (try_catch (after_fetch out sv)) = Inr \<lparr>success = True, error = None\<rparr>
        then [''/''] else [])"
  by (cases out)
    (auto simp: try_catch_def after_fetch_def catch_block_def console_log_def
      revalidatePath_def new_Error_def Let_def split: sum.splits thrown.splits option.splits)

lemma try_after_fetch_success:
  "(fst (try_catch (after_fetch out sv)) = Inr \<lparr>success = True, error = None\<rparr>) =
     (\<exists>resp v. out = Resolves resp \<and> ok resp \<and> json_body resp = Inr v)"
  by (cases out)
    (auto simp: try_catch_def after_fetch_def catch_block_def new_Error_def Let_def
      split: sum.splits thrown.splits option.splits)

lemma try_after_fetch_sent:
  "sent (snd (try_catch (after_fetch out sv))) = sent sv"
  by (cases out)
    (auto simp: try_catch_def after_fetch_def console_log_def revalidatePath_def new_Error_def
      Let_def split: sum.splits thrown.splits option.splits)

text \<open>
  What \<^verbatim>\<open>createTodo\<close> returns, on every outcome of its request. It returns success when
  the fetch resolves, the body parses and the response is ok. For a response that is not
  ok and whose body parsed, the failure carries the body's \<^verbatim>\<open>error\<close> member as a string
  when that member is there and not \<^verbatim>\<open>null\<close>, and \<^verbatim>\<open>Unable to create todo\<close> when it is
  missing or \<^verbatim>\<open>null\<close>. When a statement of the \<^verbatim>\<open>try\<close> block throws, the failure carries
  the message of what was thrown.
\<close>

lemma createTodo_result:
  "fst (createTodo net env t sv) =
     Inr (case net (createTodo_request env t) of
            Rejects e \<Rightarrow> \<lparr>success = False, error = Some (caught_message e)\<rparr>
          | Resolves resp \<Rightarrow>
              (case json_body resp of
                 Inl e \<Rightarrow> \<lparr>success = False, error = Some (caught_message e)\<rparr>
               | Inr result \<Rightarrow>
                   if ok resp then \<lparr>success = True, error = None\<rparr>
                   else
                     \<lparr>success = False,
                      error = Some
                        (case result of
                           JNull \<Rightarrow> null_property_message ''error''
                         | JObj fs \<Rightarrow>
                             (case map_of (rev fs) ''error'' of
                                None \<Rightarrow> ''Unable to create todo''
                              | Some JNull \<Rightarrow> ''Unable to create todo''
                              | Some v \<Rightarrow>
                                  (case js_String v of Inl e \<Rightarrow> caught_message e | Inr m \<Rightarrow> m))
                         | _ \<Rightarrow> ''Unable to create todo'')\<rparr>))"
  by (simp add: createTodo_def fetch_def try_after_fetch_result)

text \<open>
  Claim C4, on the code. The claim holds on the outcomes above but one: the body is parsed
  before the status is looked at, so a create that the API answers with a success status
  and an empty body (not JSON) makes \<^verbatim>\<open>response.json()\<close> reject, and the action returns
  a failure that carries the parser's message where the claim has \<^verbatim>\<open>{success: true}\<close>.
\<close>

theorem createTodo_success_status_empty_body:
  "ok \<lparr>ok = True, json_body = Inl (Error_object ''Unexpected end of JSON input'')\<rparr> \<and>
   fst (createTodo
          (\<lambda>rq. Resolves \<lparr>ok = True, json_body = Inl (Error_object ''Unexpected end of JSON input'')\<rparr>)
          (Some ''http://localhost:8000'') (staged ''buy milk'')
          \<lparr>sent = [], logged = [], revalidated = []\<rparr>)
     = Inr \<lparr>success = False, error = Some ''Unexpected end of JSON input''\<rparr>"
  by (simp add: createTodo_def fetch_def after_fetch_def try_catch_def catch_block_def
      caught_message_def)

text \<open>
  Claim C5. No write action lets an exception out: whatever the network does with the
  request, each of \<^verbatim>\<open>createTodo\<close>, \<^verbatim>\<open>removeTodo\<close> and \<^verbatim>\<open>updateTodoStatus\<close> returns a
  result value, which is a success with no error or a failure with an error message.
\<close>

theorem write_actions_never_throw:
  "(\<exists>r sv'. createTodo net env t sv = (Inr r, sv') \<and> (error r = None) = success r) \<and>
   (\<exists>r sv'. removeTodo net env i sv = (Inr r, sv') \<and> (error r = None) = success r) \<and>
   (\<exists>r sv'. updateTodoStatus net env i s sv = (Inr r, sv') \<and> (error r = None) = success r)"
  unfolding createTodo_def removeTodo_def updateTodoStatus_def fetch_def Let_def prod.case
  by (intro conjI try_after_fetch_shape)

text \<open>
  Claim C7. For a current status that is \<^verbatim>\<open>pending\<close> or \<^verbatim>\<open>completed\<close>,
  \<^verbatim>\<open>updateTodoStatus\<close> sends one request whose body carries the other status, and
  toggling the status it wrote gives the first status back.
\<close>

theorem toggle_is_involution:
  assumes "s = ''pending'' \<or> s = ''completed''"
  shows "body (updateTodoStatus_request env i s) = Some (JObj [(''status'', JStr (toggled s))]) \<and>
         sent (snd (updateTodoStatus net env i s sv)) = sent sv @ [updateTodoStatus_request env i s] \<and>
         toggled ''pending'' = ''completed'' \<and> toggled ''completed'' = ''pending'' \<and>
         toggled s \<noteq> s \<and> toggled (toggled s) = s"
  using assms
  by (auto simp: updateTodoStatus_request_def updateTodoStatus_def fetch_def toggled_def
      try_after_fetch_sent)

theorem toggle_is_involution_witness:
  "body (updateTodoStatus_request (Some ''http://localhost:8000'') ''42'' ''pending'')
     = Some (JObj [(''status'', JStr ''completed'')]) \<and>
   toggled (toggled ''pending'') = ''pending''"
  using toggle_is_involution [of "''pending''" "Some ''http://localhost:8000''" "''42''"]
  by (simp add: toggled_def)

lemma createTodo_returns:
  "\<exists>r sv'. createTodo net env t sv = (Inr r, sv')"
  using try_after_fetch_shape unfolding createTodo_def fetch_def Let_def prod.case by blast

text \<open>
  When the write actions invalidate. Each calls \<^verbatim>\<open>revalidatePath("/")\<close> once when it
  returns \<^verbatim>\<open>{success: true}\<close> and not at all otherwise; it returns success exactly when
  the fetch resolves with a response that is ok and whose body parses as JSON. The
  handlers of the three controls leave the list the component was given as it is.
\<close>

lemma invalidation_on_success_only:
  "revalidated (snd (createTodo net env t sv)) =
     revalidated sv @
       (if fst (createTodo net env t sv) = Inr \<lparr>success = True, error = None\<rparr> then [''/''] else []) \<and>
   revalidated (snd (removeTodo net env i sv)) =
     revalidated sv @
       (if fst (removeTodo net env i sv) = Inr \<lparr>success = True, error = None\<rparr> then [''/''] else []) \<and>
   revalidated (snd (updateTodoStatus net env i s sv)) =
     revalidated sv @
       (if fst (updateTodoStatus net env i s sv) = Inr \<lparr>success = True, error = None\<rparr>
        then [''/''] else []) \<and>
   (fst (createTodo net env t sv) = Inr \<lparr>success = True, error = None\<rparr>) =
     (\<exists>resp v. net (createTodo_request env t) = Resolves resp \<and> ok resp \<and> json_body resp = Inr v) \<and>
   (fst (removeTodo net env i sv) = Inr \<lparr>success = True, error = None\<rparr>) =
     (\<exists>resp v. net (removeTodo_request env i) = Resolves resp \<and> ok resp \<and> json_body resp = Inr v) \<and>
   (fst (updateTodoStatus net env i s sv) = Inr \<lparr>success = True, error = None\<rparr>) =
     (\<exists>resp v. net (updateTodoStatus_request env i s) = Resolves resp \<and> ok resp \<and>
        json_body resp = Inr v) \<and>
   todos (fst (snd (addTodo net env (u, sv)))) = todos u \<and>
   todos (fst (toggle_click net env x (u, sv))) = todos u \<and>
   todos (fst (delete_click net env x (u, sv))) = todos u"
proof -
  have "todos (fst (snd (addTodo net env (u, sv)))) = todos u"
    by (auto simp: addTodo_def Let_def toast_error_def toast_success_def split: prod.splits sum.splits)
  moreover have "todos (fst (toggle_click net env x (u, sv))) = todos u"
    by (simp add: toggle_click_def)
  moreover have "todos (fst (delete_click net env x (u, sv))) = todos u"
    by (simp add: delete_click_def)
  ultimately show ?thesis
    unfolding createTodo_def removeTodo_def updateTodoStatus_def fetch_def Let_def prod.case
    by (simp add: try_after_fetch_revalidated try_after_fetch_success)
qed

text \<open>
  Claim C6, on the code. A failure never invalidates, as the claim says, but a request
  that succeeded may not invalidate either: a delete that the API answers with a success
  status and an empty body (204 No Content) is reported as a failure, and
  \<^verbatim>\<open>revalidatePath\<close> is not called, because the body is parsed first.
\<close>

theorem removeTodo_no_content_not_revalidated:
  "ok \<lparr>ok = True, json_body = Inl (Error_object ''Unexpected end of JSON input'')\<rparr> \<and>
   removeTodo
     (\<lambda>rq. Resolves \<lparr>ok = True, json_body = Inl (Error_object ''Unexpected end of JSON input'')\<rparr>)
     (Some ''http://localhost:8000'') ''42'' \<lparr>sent = [], logged = [], revalidated = []\<rparr>
   = (Inr \<lparr>success = False, error = Some ''Unexpected end of JSON input''\<rparr>,
      \<lparr>sent = [removeTodo_request (Some ''http://localhost:8000'') ''42''], logged = [],
       revalidated = []\<rparr>)"
  by (simp add: removeTodo_def fetch_def after_fetch_def try_catch_def catch_block_def
      caught_message_def)

section \<open>Properties of the list component\<close>

text \<open>
  Claim C8, as the code has it. The Add button's handler shows one notification with a
  fixed text: \<^verbatim>\<open>Todo added!\<close> when \<^verbatim>\<open>createTodo\<close> returns success and
  \<^verbatim>\<open>Todo not added!\<close> when it returns a failure, whatever message the failure carries.
\<close>

theorem addTodo_notifies:
  "\<exists>r sv'. createTodo net env (todo u) sv = (Inr r, sv') \<and>
     toasts (fst (snd (addTodo net env (u, sv)))) =
       toasts u @ [if success r then Toast_success ''Todo added!'' else Toast_error ''Todo not added!'']"
proof -
  obtain r sv' where c: "createTodo net env (todo u) sv = (Inr r, sv')"
    using createTodo_returns by blast
  then show ?thesis
    by (simp add: addTodo_def Let_def toast_error_def toast_success_def)
qed

text \<open>
  Claim C8 as stated fails twice. When the API refuses a create with the message
  \<^verbatim>\<open>task required\<close>, the action returns that message and the notification reads
  \<^verbatim>\<open>Todo not added!\<close>; and a click on a row's toggle or delete button shows no
  notification at all.
\<close>

theorem notification_counterexample:
  "fst (createTodo
          (\<lambda>rq. Resolves \<lparr>ok = False, json_body = Inr (JObj [(''error'', JStr ''task required'')])\<rparr>)
          (Some ''http://localhost:8000'') (todo (TodoList_initial []))
          \<lparr>sent = [], logged = [], revalidated = []\<rparr>)
     = Inr \<lparr>success = False, error = Some ''task required''\<rparr> \<and>
   toasts (fst (snd (addTodo
          (\<lambda>rq. Resolves \<lparr>ok = False, json_body = Inr (JObj [(''error'', JStr ''task required'')])\<rparr>)
          (Some ''http://localhost:8000'')
          (TodoList_initial [], \<lparr>sent = [], logged = [], revalidated = []\<rparr>))))
     = [Toast_error ''Todo not added!''] \<and>
   toasts (fst (toggle_click
          (\<lambda>rq. Resolves \<lparr>ok = True, json_body = Inr (JObj [])\<rparr>)
          (Some ''http://localhost:8000'')
          \<lparr>todo_id = ''42'', task = ''buy milk'', status = Pending, createdAt = None, updatedAt = None\<rparr>
          (TodoList_initial
             [\<lparr>todo_id = ''42'', task = ''buy milk'', status = Pending, createdAt = None, updatedAt = None\<rparr>],
           \<lparr>sent = [], logged = [], revalidated = []\<rparr>))) = [] \<and>
   toasts (fst (delete_click
          (\<lambda>rq. Resolves \<lparr>ok = True, json_body = Inr (JObj [])\<rparr>)
          (Some ''http://localhost:8000'')
          \<lparr>todo_id = ''42'', task = ''buy milk'', status = Pending, createdAt = None, updatedAt = None\<rparr>
          (TodoList_initial
             [\<lparr>todo_id = ''42'', task = ''buy milk'', status = Pending, createdAt = None, updatedAt = None\<rparr>],
           \<lparr>sent = [], logged = [], revalidated = []\<rparr>))) = []"
  by (simp add: createTodo_def fetch_def after_fetch_def try_catch_def catch_block_def
      caught_message_def new_Error_def console_log_def addTodo_def toast_error_def TodoList_initial_def
      toggle_click_def delete_click_def Let_def)

text \<open>
  Claim C9. For an empty list the component renders the empty state, which is not a
  list of rows; for a list that is not empty it renders one row for each todo, in order,
  each showing the task of its todo and passing its id (and status) to the two actions.
\<close>

theorem list_renderer:
  "area (TodoList u) = render_list (todos u) \<and>
   (\<exists>i title description. render_list [] = Empty i title description) \<and>
   render_list [] \<noteq> Rows [] \<and>
   (ts \<noteq> [] \<longrightarrow>
      (\<exists>rows. render_list ts = Rows rows \<and> length rows = length ts \<and>
         map row_text rows = map task ts \<and>
         map toggle_args rows = map (\<lambda>t. (todo_id t, status t)) ts \<and>
         map delete_arg rows = map todo_id ts))"
  by (simp add: TodoList_def render_list_def render_row_def comp_def)

theorem list_renderer_witness:
  "[\<lparr>todo_id = ''42'', task = ''buy milk'', status = Pending, createdAt = None, updatedAt = None\<rparr>] \<noteq> [] \<and>
   (\<exists>rows. render_list
      [\<lparr>todo_id = ''42'', task = ''buy milk'', status = Pending, createdAt = None, updatedAt = None\<rparr>]
        = Rows rows \<and> map row_text rows = [''buy milk''])"
  using list_renderer
    [where ts = "[\<lparr>todo_id = ''42'', task = ''buy milk'', status = Pending, createdAt = None, updatedAt = None\<rparr>]"
       and u = "TodoList_initial []"]
  by auto

text \<open>
  Claim C10. After \<^verbatim>\<open>addTodo\<close>, \<open>loading\<close> is true exactly when \<^verbatim>\<open>createTodo\<close> returned
  a failure, so the Add button goes on showing the spinner; the staged todo is the one
  from before the click on a failure and the empty pending one on a success.
\<close>

theorem addTodo_failure_keeps_spinner:
  "\<exists>r sv'. createTodo net env (todo u) sv = (Inr r, sv') \<and>
     loading (fst (snd (addTodo net env (u, sv)))) = (\<not> success r) \<and>
     todo (fst (snd (addTodo net env (u, sv)))) = (if success r then staged [] else todo u) \<and>
     add_icon (TodoList (fst (snd (addTodo net env (u, sv))))) = (if success r then Plus else Loader2) \<and>
     input_value (TodoList (fst (snd (addTodo net env (u, sv))))) =
       (if success r then Some [] else p_task (todo u)) \<and>
     fst (addTodo net env (u, sv)) = Inr ()"
proof -
  obtain r sv' where c: "createTodo net env (todo u) sv = (Inr r, sv')"
    using createTodo_returns by blast
  then show ?thesis
    by (simp add: addTodo_def Let_def toast_error_def toast_success_def TodoList_def staged_def)
qed

section \<open>Properties of the page\<close>

text \<open>
  Claim C3, on the code. A response that is not ok makes \<^verbatim>\<open>Home\<close> return the error
  panel. A fetch that rejects (the API cannot be reached) is not caught: the exception
  leaves \<^verbatim>\<open>Home\<close>, which returns no panel of its own. In both cases one request is sent.
\<close>

theorem Home_failures:
  "fst (Home (\<lambda>rq. Resolves \<lparr>ok = False, json_body = b\<rparr>) env sp sv) =
     Inr (Error_panel ''Something went wrong''
            ''Unable to fetch todos. Please try again or check the console for more details.'') \<and>
   fst (Home (\<lambda>rq. Rejects e) env sp sv) = Inl e \<and>
   sent (snd (Home (\<lambda>rq. Rejects e) env sp sv)) = sent sv @ [Home_request env sp]"
  by (simp add: Home_def fetch_def)

section \<open>Properties of strings\<close>

text \<open>
  Decoding the UTF-8 bytes of scalar values gives the scalar values back; the code points
  read from a string are scalar values, and writing them as code units gives the string
  back when no surrogate stands alone in it.
\<close>

lemma div_64_64: "(cp::nat) div 4096 = cp div 64 div 64"
  by (simp add: div_mult2_eq [symmetric])

lemma div_64_64_64: "(cp::nat) div 262144 = cp div 64 div 64 div 64"
  by (simp add: div_mult2_eq [symmetric])

lemma rebuild: "(n::nat) div 64 * 64 + n mod 64 = n"
  by simp

lemma mod_64_bound: "(n::nat) mod 64 < 64"
  by simp

lemma three_bytes_value:
  "((cp::nat) div 4096 * 64 + cp div 64 mod 64) * 64 + cp mod 64 = cp"
  by (simp add: div_64_64)

lemma four_bytes_value:
  "(((cp::nat) div 262144 * 64 + cp div 4096 mod 64) * 64 + cp div 64 mod 64) * 64 + cp mod 64 = cp"
  by (simp add: div_64_64 div_64_64_64)

lemma lead3_bound: "(cp::nat) < 0x10000 \<Longrightarrow> cp div 4096 < 16"
  by (simp add: div_less_iff_less_mult)

lemma lead4_bound: "(cp::nat) < 0x110000 \<Longrightarrow> cp div 262144 < 5"
  by (simp add: div_less_iff_less_mult)

lemma lead2_bounds: "0x80 \<le> (cp::nat) \<Longrightarrow> cp < 0x800 \<Longrightarrow> 2 \<le> cp div 64 \<and> cp div 64 < 32"
  by (simp add: div_less_iff_less_mult less_eq_div_iff_mult_less_eq)

lemma second_of_e0:
  "0x800 \<le> (cp::nat) \<Longrightarrow> cp div 4096 = 0 \<Longrightarrow> 32 \<le> cp div 64 mod 64"
proof -
  assume a: "0x800 \<le> cp" and z: "cp div 4096 = 0"
  from z have "cp div 64 div 64 = 0" by (simp add: div_64_64)
  then have "cp div 64 < 64" by (simp add: div_eq_0_iff)
  moreover from a have "32 \<le> cp div 64" by (simp add: less_eq_div_iff_mult_less_eq)
  ultimately show ?thesis by simp
qed

lemma second_of_ed:
  "(cp::nat) < 0xD800 \<Longrightarrow> cp div 4096 = 13 \<Longrightarrow> cp div 64 mod 64 < 32"
proof -
  assume a: "cp < 0xD800" and z: "cp div 4096 = 13"
  from a have u: "cp div 64 < 864" by (simp add: div_less_iff_less_mult)
  from z have d: "cp div 64 div 64 = 13" by (simp add: div_64_64)
  have "cp div 64 = cp div 64 div 64 * 64 + cp div 64 mod 64" by simp
  with d have "cp div 64 = 832 + cp div 64 mod 64" by simp
  with u show ?thesis by linarith
qed

lemma second_of_f0:
  "0x10000 \<le> (cp::nat) \<Longrightarrow> cp div 262144 = 0 \<Longrightarrow> 16 \<le> cp div 4096 mod 64"
proof -
  assume a: "0x10000 \<le> cp" and z: "cp div 262144 = 0"
  from z have "cp div 4096 div 64 = 0" by (simp add: div_64_64 div_64_64_64)
  then have "cp div 4096 < 64" by (simp add: div_eq_0_iff)
  moreover from a have "16 \<le> cp div 4096" by (simp add: less_eq_div_iff_mult_less_eq)
  ultimately show ?thesis by simp
qed

lemma second_of_f4:
  "(cp::nat) < 0x110000 \<Longrightarrow> cp div 262144 = 4 \<Longrightarrow> cp div 4096 mod 64 < 16"
proof -
  assume a: "cp < 0x110000" and z: "cp div 262144 = 4"
  from a have u: "cp div 4096 < 272" by (simp add: div_less_iff_less_mult)
  from z have d: "cp div 4096 div 64 = 4" by (simp add: div_64_64 div_64_64_64)
  have "cp div 4096 = cp div 4096 div 64 * 64 + cp div 4096 mod 64" by simp
  with d have "cp div 4096 = 256 + cp div 4096 mod 64" by simp
  with u show ?thesis by linarith
qed

lemma unat_16: "unat (u :: 16 word) < 65536"
  using unsigned_less [of u, where ?'a = nat] by simp

lemma unat_unit: "unat (of_nat (of_char c) :: 16 word) = of_char c"
proof -
  have "(of_char c :: nat) < 2 ^ 16"
    by (rule less_trans [OF nat_of_char_less_256]) simp
  then show ?thesis by (simp add: unat_of_nat)
qed

lemma unat_small: "n < 65536 \<Longrightarrow> unat (of_nat n :: 16 word) = n"
  by (simp add: unat_of_nat)

lemma of_char_of_small: "n < 256 \<Longrightarrow> of_char (char_of n) = (n::nat)"
  by simp

lemma decoder_ascii:
  "(of_char c :: nat) \<le> 0x7F \<Longrightarrow>
   utf8_decoder cp 0 lo hi (c # cs) = of_char c # utf8_decoder 0 0 0x80 0xBF cs"
  by (simp add: Let_def)

lemma decoder_lead2:
  "0xC2 \<le> (of_char c :: nat) \<Longrightarrow> (of_char c :: nat) \<le> 0xDF \<Longrightarrow>
   utf8_decoder cp 0 lo hi (c # cs) = utf8_decoder (of_char c - 0xC0) 1 0x80 0xBF cs"
  by (simp add: Let_def)

lemma decoder_lead3:
  "0xE0 \<le> (of_char c :: nat) \<Longrightarrow> (of_char c :: nat) \<le> 0xEF \<Longrightarrow>
   utf8_decoder cp 0 lo hi (c # cs) =
     utf8_decoder (of_char c - 0xE0) 2 (if (of_char c :: nat) = 0xE0 then 0xA0 else 0x80)
       (if (of_char c :: nat) = 0xED then 0x9F else 0xBF) cs"
  by (simp add: Let_def)

lemma decoder_lead4:
  "0xF0 \<le> (of_char c :: nat) \<Longrightarrow> (of_char c :: nat) \<le> 0xF4 \<Longrightarrow>
   utf8_decoder cp 0 lo hi (c # cs) =
     utf8_decoder (of_char c - 0xF0) 3 (if (of_char c :: nat) = 0xF0 then 0x90 else 0x80)
       (if (of_char c :: nat) = 0xF4 then 0x8F else 0xBF) cs"
  by (simp add: Let_def)

lemma decoder_last:
  "lo \<le> (of_char c :: nat) \<Longrightarrow> (of_char c :: nat) \<le> hi \<Longrightarrow>
   utf8_decoder cp (Suc 0) lo hi (c # cs) =
     (cp * 64 + (of_char c - 0x80)) # utf8_decoder 0 0 0x80 0xBF cs"
  by (simp add: Let_def)

lemma decoder_more:
  "lo \<le> (of_char c :: nat) \<Longrightarrow> (of_char c :: nat) \<le> hi \<Longrightarrow>
   utf8_decoder cp (Suc (Suc n)) lo hi (c # cs) =
     utf8_decoder (cp * 64 + (of_char c - 0x80)) (Suc n) 0x80 0xBF cs"
  by (simp add: Let_def)

lemma continuation_byte: "m < 64 \<Longrightarrow> of_char (char_of (0x80 + m)) = (0x80 + m :: nat)"
  by (simp add: of_char_of_small)

lemma decode_bytes_1:
  assumes "cp < 0x80"
  shows "utf8_decoder 0 0 0x80 0xBF (utf8_bytes cp @ rest) = cp # utf8_decoder 0 0 0x80 0xBF rest"
proof -
  have b: "of_char (char_of cp) = cp" using assms by (simp add: of_char_of_small)
  have "utf8_bytes cp = [char_of cp]" using assms by (simp add: utf8_bytes_def)
  then show ?thesis using decoder_ascii [of "char_of cp" 0 "0x80" "0xBF" rest] b assms by simp
qed

lemma decode_bytes_2:
  assumes "0x80 \<le> cp" "cp < 0x800"
  shows "utf8_decoder 0 0 0x80 0xBF (utf8_bytes cp @ rest) = cp # utf8_decoder 0 0 0x80 0xBF rest"
proof -
  define d1 where "d1 = cp div 64"
  define m1 where "m1 = cp mod 64"
  define c1 where "c1 = char_of (0xC0 + d1)"
  define c2 where "c2 = char_of (0x80 + m1)"
  have d: "2 \<le> d1" "d1 < 32" using lead2_bounds [OF assms] by (simp_all add: d1_def)
  have m: "m1 < 64" by (simp add: m1_def)
  have b1: "(of_char c1 :: nat) = 0xC0 + d1"
    unfolding c1_def using d by (intro of_char_of_small) simp
  have b2: "(of_char c2 :: nat) = 0x80 + m1"
    unfolding c2_def by (rule continuation_byte [OF m])
  have u: "utf8_bytes cp = [c1, c2]"
    using assms by (simp add: utf8_bytes_def c1_def c2_def d1_def m1_def)
  have r1: "0xC2 \<le> (of_char c1 :: nat)" "(of_char c1 :: nat) \<le> 0xDF"
    unfolding b1 using d by simp_all
  have r2: "0x80 \<le> (of_char c2 :: nat)" "(of_char c2 :: nat) \<le> 0xBF"
    unfolding b2 using m by simp_all
  have v: "(of_char c1 - 0xC0) * 64 + (of_char c2 - 0x80) = cp"
    unfolding b1 b2 by (simp add: d1_def m1_def)
  show ?thesis
    unfolding u append_Cons append_Nil
    by (simp only: decoder_lead2 [OF r1] One_nat_def decoder_last [OF r2] v)
qed

lemma decode_bytes_3:
  assumes "0x800 \<le> cp" "cp < 0x10000" "cp < 0xD800 \<or> 0xDFFF < cp"
  shows "utf8_decoder 0 0 0x80 0xBF (utf8_bytes cp @ rest) = cp # utf8_decoder 0 0 0x80 0xBF rest"
proof -
  define d1 where "d1 = cp div 4096"
  define m2 where "m2 = cp div 64 mod 64"
  define m1 where "m1 = cp mod 64"
  define c1 where "c1 = char_of (0xE0 + d1)"
  define c2 where "c2 = char_of (0x80 + m2)"
  define c3 where "c3 = char_of (0x80 + m1)"
  have d: "d1 < 16" using lead3_bound [OF assms(2)] by (simp add: d1_def)
  have m: "m1 < 64" "m2 < 64" by (simp_all add: m1_def m2_def)
  have b1: "(of_char c1 :: nat) = 0xE0 + d1"
    unfolding c1_def using d by (intro of_char_of_small) simp
  have b2: "(of_char c2 :: nat) = 0x80 + m2"
    unfolding c2_def by (rule continuation_byte [OF m(2)])
  have b3: "(of_char c3 :: nat) = 0x80 + m1"
    unfolding c3_def by (rule continuation_byte [OF m(1)])
  have u: "utf8_bytes cp = [c1, c2, c3]"
    using assms by (simp add: utf8_bytes_def c1_def c2_def c3_def d1_def m1_def m2_def)
  have r1: "0xE0 \<le> (of_char c1 :: nat)" "(of_char c1 :: nat) \<le> 0xEF"
    unfolding b1 using d by simp_all
  have lo: "d1 = 0 \<Longrightarrow> 32 \<le> m2"
    using second_of_e0 [OF assms(1)] by (simp add: d1_def m2_def)
  have "d1 = 13 \<Longrightarrow> cp < 0xD800"
  proof -
    assume e: "d1 = 13"
    have "cp div 4096 < 14" using e by (simp add: d1_def)
    then have "cp < 0xE000" by (simp add: div_less_iff_less_mult)
    with assms(3) show ?thesis by simp
  qed
  then have hi: "d1 = 13 \<Longrightarrow> m2 < 32"
    using second_of_ed [of cp] by (simp add: d1_def m2_def)
  have r2: "(if (of_char c1 :: nat) = 0xE0 then 0xA0 else 0x80) \<le> (of_char c2 :: nat)"
    "(of_char c2 :: nat) \<le> (if (of_char c1 :: nat) = 0xED then 0x9F else 0xBF)"
    unfolding b1 b2 using lo hi m(2) by (auto split: if_splits)
  have r3: "0x80 \<le> (of_char c3 :: nat)" "(of_char c3 :: nat) \<le> 0xBF"
    unfolding b3 using m by simp_all
  have v: "((of_char c1 - 0xE0) * 64 + (of_char c2 - 0x80)) * 64 + (of_char c3 - 0x80) = cp"
    unfolding b1 b2 b3 using three_bytes_value [of cp] by (simp add: d1_def m1_def m2_def)
  have n: "(2::nat) = Suc (Suc 0)" by simp
  show ?thesis
    unfolding u append_Cons append_Nil
    by (simp only: decoder_lead3 [OF r1] n decoder_more [OF r2] decoder_last [OF r3] v)
qed

lemma decode_bytes_4:
  assumes "0x10000 \<le> cp" "cp < 0x110000"
  shows "utf8_decoder 0 0 0x80 0xBF (utf8_bytes cp @ rest) = cp # utf8_decoder 0 0 0x80 0xBF rest"
proof -
  define d1 where "d1 = cp div 262144"
  define m3 where "m3 = cp div 4096 mod 64"
  define m2 where "m2 = cp div 64 mod 64"
  define m1 where "m1 = cp mod 64"
  define c1 where "c1 = char_of (0xF0 + d1)"
  define c2 where "c2 = char_of (0x80 + m3)"
  define c3 where "c3 = char_of (0x80 + m2)"
  define c4 where "c4 = char_of (0x80 + m1)"
  have d: "d1 < 5" using lead4_bound [OF assms(2)] by (simp add: d1_def)
  have m: "m1 < 64" "m2 < 64" "m3 < 64" by (simp_all add: m1_def m2_def m3_def)
  have b1: "(of_char c1 :: nat) = 0xF0 + d1"
    unfolding c1_def using d by (intro of_char_of_small) simp
  have b2: "(of_char c2 :: nat) = 0x80 + m3"
    unfolding c2_def by (rule continuation_byte [OF m(3)])
  have b3: "(of_char c3 :: nat) = 0x80 + m2"
    unfolding c3_def by (rule continuation_byte [OF m(2)])
  have b4: "(of_char c4 :: nat) = 0x80 + m1"
    unfolding c4_def by (rule continuation_byte [OF m(1)])
  have u: "utf8_bytes cp = [c1, c2, c3, c4]"
    using assms by (simp add: utf8_bytes_def c1_def c2_def c3_def c4_def d1_def m1_def m2_def m3_def)
  have r1: "0xF0 \<le> (of_char c1 :: nat)" "(of_char c1 :: nat) \<le> 0xF4"
    unfolding b1 using d by simp_all
  have lo: "d1 = 0 \<Longrightarrow> 16 \<le> m3"
    using second_of_f0 [OF assms(1)] by (simp add: d1_def m3_def)
  have hi: "d1 = 4 \<Longrightarrow> m3 < 16"
    using second_of_f4 [OF assms(2)] by (simp add: d1_def m3_def)
  have r2: "(if (of_char c1 :: nat) = 0xF0 then 0x90 else 0x80) \<le> (of_char c2 :: nat)"
    "(of_char c2 :: nat) \<le> (if (of_char c1 :: nat) = 0xF4 then 0x8F else 0xBF)"
    unfolding b1 b2 using lo hi m(3) by (auto split: if_splits)
  have r3: "0x80 \<le> (of_char c3 :: nat)" "(of_char c3 :: nat) \<le> 0xBF"
    unfolding b3 using m by simp_all
  have r4: "0x80 \<le> (of_char c4 :: nat)" "(of_char c4 :: nat) \<le> 0xBF"
    unfolding b4 using m by simp_all
  have v: "(((of_char c1 - 0xF0) * 64 + (of_char c2 - 0x80)) * 64 + (of_char c3 - 0x80)) * 64
      + (of_char c4 - 0x80) = cp"
    unfolding b1 b2 b3 b4 using four_bytes_value [of cp]
    by (simp add: d1_def m1_def m2_def m3_def)
  have n: "(3::nat) = Suc (Suc (Suc 0))" by simp
  show ?thesis
    unfolding u append_Cons append_Nil
    by (simp only: decoder_lead4 [OF r1] n decoder_more [OF r2] decoder_more [OF r3]
        decoder_last [OF r4] v)
qed

lemma decode_scalar:
  assumes "scalar_value cp"
  shows "utf8_decoder 0 0 0x80 0xBF (utf8_bytes cp @ rest) = cp # utf8_decoder 0 0 0x80 0xBF rest"
proof -
  consider "cp < 0x80" | "0x80 \<le> cp" "cp < 0x800" | "0x800 \<le> cp" "cp < 0x10000"
    | "0x10000 \<le> cp"
    by linarith
  then show ?thesis
  proof cases
    case 1
    then show ?thesis by (rule decode_bytes_1)
  next
    case 2
    then show ?thesis by (rule decode_bytes_2)
  next
    case 3
    then show ?thesis using assms by (intro decode_bytes_3) (simp_all add: scalar_value_def)
  next
    case 4
    then show ?thesis using assms by (intro decode_bytes_4) (simp_all add: scalar_value_def)
  qed
qed

lemma utf8_decode_encode:
  "\<forall>cp\<in>set cps. scalar_value cp \<Longrightarrow> utf8_decode (utf8_encode cps) = cps"
  unfolding utf8_decode_def utf8_encode_def
  by (induction cps) (simp_all add: decode_scalar)

lemma word_of_unat_16: "of_nat (unat u) = (u :: 16 word)"
  by simp

lemma lone_scalar: "scalar_value (lone u)"
  using unat_16 [of u]
  by (auto simp: lone_def scalar_value_def high_surrogate_def low_surrogate_def)

lemma pair_value:
  assumes "high_surrogate u" "low_surrogate v"
  shows "\<exists>a b. unat u = 0xD800 + a \<and> unat v = 0xDC00 + b \<and> a < 0x400 \<and> b < 0x400 \<and>
           0x10000 + (unat u - 0xD800) * 0x400 + (unat v - 0xDC00) = 0x10000 + (a * 0x400 + b)"
proof -
  define a where "a = unat u - 0xD800"
  define b where "b = unat v - 0xDC00"
  have "unat u = 0xD800 + a" "a < 0x400"
    using assms(1) unfolding a_def high_surrogate_def by linarith+
  moreover have "unat v = 0xDC00 + b" "b < 0x400"
    using assms(2) unfolding b_def low_surrogate_def by linarith+
  ultimately show ?thesis by (intro exI [of _ a] exI [of _ b]) (simp add: a_def b_def)
qed

lemma pair_scalar:
  assumes "high_surrogate u" "low_surrogate v"
  shows "scalar_value (0x10000 + (unat u - 0xD800) * 0x400 + (unat v - 0xDC00))"
proof -
  obtain a b where ab: "a < 0x400" "b < 0x400"
    and e: "0x10000 + (unat u - 0xD800) * 0x400 + (unat v - 0xDC00) = 0x10000 + (a * 0x400 + b)"
    using pair_value [OF assms] by blast
  from ab have "a * 0x400 + b < 0x100000" by linarith
  then show ?thesis unfolding e by (simp add: scalar_value_def)
qed

lemma scalars_scalar: "cp \<in> set (scalars s) \<Longrightarrow> scalar_value cp"
  by (induction s rule: scalars.induct) (auto simp: lone_scalar pair_scalar split: if_splits)

lemma utf16_units_lone:
  "\<not> high_surrogate u \<Longrightarrow> \<not> low_surrogate u \<Longrightarrow> utf16_units (lone u) = [u]"
  using unat_16 [of u] by (simp add: utf16_units_def lone_def)

lemma utf16_units_pair:
  assumes "high_surrogate u" "low_surrogate v"
  shows "utf16_units (0x10000 + (unat u - 0xD800) * 0x400 + (unat v - 0xDC00)) = [u, v]"
proof -
  obtain a b where ab: "unat u = 0xD800 + a" "unat v = 0xDC00 + b" "a < 0x400" "b < 0x400"
    and e: "0x10000 + (unat u - 0xD800) * 0x400 + (unat v - 0xDC00) = 0x10000 + (a * 0x400 + b)"
    using pair_value [OF assms] by blast
  have d: "(a * 0x400 + b) div 0x400 = a" and m: "(a * 0x400 + b) mod 0x400 = b"
    using ab(4) by simp_all
  have "utf16_units (0x10000 + (a * 0x400 + b)) = [of_nat (0xD800 + a), of_nat (0xDC00 + b)]"
    unfolding utf16_units_def using d m by simp
  also have "\<dots> = [of_nat (unat u), of_nat (unat v)]" by (simp only: ab(1,2))
  finally show ?thesis unfolding e by simp
qed

lemma utf16_Cons: "utf16 (cp # cps) = utf16_units cp @ utf16 cps"
  by (simp add: utf16_def)

lemma utf16_scalars: "well_formed s \<Longrightarrow> utf16 (scalars s) = s"
proof (induction s rule: scalars.induct)
  case 1
  then show ?case by (simp add: utf16_def)
next
  case (2 u)
  then show ?case by (simp add: utf16_Cons utf16_units_lone) (simp add: utf16_def)
next
  case (3 u v rest)
  show ?case
  proof (cases "high_surrogate u")
    case True
    with 3 show ?thesis by (simp add: utf16_Cons utf16_units_pair)
  next
    case False
    with 3 show ?thesis by (simp add: utf16_Cons utf16_units_lone)
  qed
qed

lemma scalars_plain:
  "\<not> high_surrogate u \<Longrightarrow> scalars (u # rest) = lone u # scalars rest"
  by (cases rest) simp_all

lemma unit_of_small:
  assumes "cp < 0x10000" "cp < 0xD800 \<or> 0xDFFF < cp"
  shows "\<not> high_surrogate (of_nat cp :: 16 word) \<and> lone (of_nat cp :: 16 word) = cp"
  using assms by (auto simp: lone_def high_surrogate_def low_surrogate_def unat_small)

lemma units_of_large:
  assumes "0x10000 \<le> cp" "cp < 0x110000"
  shows "\<exists>u v. utf16_units cp = [u, v] \<and> high_surrogate u \<and> low_surrogate v \<and>
           0x10000 + (unat u - 0xD800) * 0x400 + (unat v - 0xDC00) = cp"
proof -
  define n where "n = cp - 0x10000"
  define a where "a = n div 0x400"
  define b where "b = n mod 0x400"
  have n: "n < 0x100000" "cp = 0x10000 + n" using assms by (simp_all add: n_def)
  have a: "a < 0x400" using n(1) by (simp add: a_def div_less_iff_less_mult)
  have b: "b < 0x400" by (simp add: b_def)
  have r: "a * 0x400 + b = n" by (simp add: a_def b_def)
  have ua: "unat (of_nat (0xD800 + a) :: 16 word) = 0xD800 + a"
    using a by (intro unat_small) simp
  have ub: "unat (of_nat (0xDC00 + b) :: 16 word) = 0xDC00 + b"
    using b by (intro unat_small) simp
  have "utf16_units cp = [of_nat (0xD800 + a), of_nat (0xDC00 + b)]"
    using assms(1) by (simp add: utf16_units_def a_def b_def n_def)
  moreover have "high_surrogate (of_nat (0xD800 + a) :: 16 word)"
    unfolding high_surrogate_def ua using a by simp
  moreover have "low_surrogate (of_nat (0xDC00 + b) :: 16 word)"
    unfolding low_surrogate_def ub using b by simp
  moreover have "0x10000 + (unat (of_nat (0xD800 + a) :: 16 word) - 0xD800) * 0x400
      + (unat (of_nat (0xDC00 + b) :: 16 word) - 0xDC00) = cp"
    unfolding ua ub using r n(2) by simp
  ultimately show ?thesis by blast
qed

lemma scalars_utf16: "\<forall>cp\<in>set cps. scalar_value cp \<Longrightarrow> scalars (utf16 cps) = cps"
proof (induction cps)
  case Nil
  then show ?case by (simp add: utf16_def)
next
  case (Cons cp cps)
  then have ih: "scalars (utf16 cps) = cps" and sv: "scalar_value cp" by simp_all
  show ?case
  proof (cases "cp < 0x10000")
    case True
    with sv have "\<not> high_surrogate (of_nat cp :: 16 word) \<and> lone (of_nat cp :: 16 word) = cp"
      by (intro unit_of_small) (simp_all add: scalar_value_def)
    with True ih show ?thesis
      by (simp add: utf16_Cons utf16_units_def scalars_plain)
  next
    case False
    with sv obtain u v where "utf16_units cp = [u, v]" "high_surrogate u" "low_surrogate v"
      "0x10000 + (unat u - 0xD800) * 0x400 + (unat v - 0xDC00) = cp"
      using units_of_large [of cp] by (auto simp: scalar_value_def)
    with ih show ?thesis by (simp add: utf16_Cons)
  qed
qed

lemma scalars_USVString: "scalars (USVString s) = scalars s"
  unfolding USVString_def by (rule scalars_utf16) (simp add: scalars_scalar)

lemma USVString_well_formed: "well_formed s \<Longrightarrow> USVString s = s"
  unfolding USVString_def by (rule utf16_scalars)

lemma USVString_idem: "USVString (USVString s) = USVString s"
  by (simp add: USVString_def [of "USVString s"] scalars_USVString) (simp add: USVString_def)

lemma unit_plain: "\<not> high_surrogate (of_nat (of_char c) :: 16 word) \<and> \<not> low_surrogate (of_nat (of_char c) :: 16 word)"
  using nat_of_char_less_256 [of c] unfolding high_surrogate_def low_surrogate_def unat_unit
  by linarith

lemma well_formed_units: "well_formed (units s)"
proof (induction s)
  case Nil
  then show ?case by (simp add: units_def)
next
  case (Cons c s)
  then show ?case using unit_plain [of c] by (cases s) (simp_all add: units_def)
qed

lemma USVString_units: "USVString (units s) = units s"
  by (rule USVString_well_formed [OF well_formed_units])

lemma scalars_units: "scalars (units s) = map of_char s"
proof (induction s)
  case Nil
  then show ?case by (simp add: units_def)
next
  case (Cons c s)
  have "scalars (units (c # s)) = lone (of_nat (of_char c)) # scalars (units s)"
    using unit_plain [of c] by (simp add: units_def scalars_plain)
  with Cons show ?case using unit_plain [of c] by (simp add: lone_def unat_unit)
qed

lemma units_append: "units (a @ b) = units a @ units b"
  by (simp add: units_def)

lemma units_inject: "units a = units b \<Longrightarrow> a = b"
proof -
  assume e: "units a = units b"
  have "map (of_char :: char \<Rightarrow> nat) a = map of_char b"
    using arg_cong [OF e, of scalars] by (simp add: scalars_units)
  then show ?thesis
    by (metis (no_types) list.inj_map_strong char_of_char)
qed

section \<open>Properties of query strings\<close>

text \<open>
  Decoding the percent escapes undoes encoding byte by byte, and an encoded name or value
  holds none of the separators, so that parsing a serialised list of pairs gives the list
  back.
\<close>

lemma nat_below_16:
  "(n::nat) < 16 \<Longrightarrow> n \<in> {0, 1, 2, 3, 4, 5, 6, 7, 8, 9, 10, 11, 12, 13, 14, 15}"
  by (simp only: insert_iff empty_iff) arith

lemma hex_value_hex_digit: "n < 16 \<Longrightarrow> hex_value (hex_digit n) = Some n"
  by (drule nat_below_16) (auto simp: hex_digit_def hex_value_def)

lemma hex_digit_plain: "n < 16 \<Longrightarrow> hex_digit n \<in> set ''0123456789ABCDEF''"
  by (drule nat_below_16) (auto simp: hex_digit_def)

lemma high_half: "(of_char c :: nat) div 16 < 16"
  using nat_of_char_less_256 [of c] by (simp add: div_less_iff_less_mult)

lemma encode_byte_chars:
  "x \<in> set (encode_byte c) \<Longrightarrow>
   x \<in> set ''%+*-._0123456789ABCDEFGHIJKLMNOPQRSTUVWXYZabcdefghijklmnopqrstuvwxyz''"
proof -
  assume x: "x \<in> set (encode_byte c)"
  have h: "hex_digit (of_char c div 16) \<in> set ''0123456789ABCDEF''"
    by (rule hex_digit_plain [OF high_half])
  have l: "hex_digit (of_char c mod 16) \<in> set ''0123456789ABCDEF''"
    by (rule hex_digit_plain) simp
  from x h l show ?thesis
    by (auto simp: encode_byte_def unreserved_def split: if_splits)
qed

lemma encoded_not_separator:
  "x \<in> set (encode s) \<Longrightarrow>
   x \<noteq> CHR ''&'' \<and> x \<noteq> CHR ''='' \<and> x \<noteq> CHR ''#'' \<and> x \<noteq> CHR ''?''"
  by (auto simp: encode_def dest!: encode_byte_chars)

lemma percent_decode_encode_byte:
  "percent_decode (encode_byte c @ rest) = c # percent_decode rest"
proof (cases "c = CHR '' ''")
  case True
  then show ?thesis by (simp add: encode_byte_def)
next
  case False
  show ?thesis
  proof (cases "unreserved c")
    case True
    then have "c \<noteq> CHR ''+''" "c \<noteq> CHR ''%''" by (auto simp: unreserved_def)
    with True False show ?thesis by (simp add: encode_byte_def)
  next
    case u: False
    have "hex_value (hex_digit (of_char c div 16)) = Some (of_char c div 16)"
      by (rule hex_value_hex_digit [OF high_half])
    moreover have "hex_value (hex_digit (of_char c mod 16)) = Some (of_char c mod 16)"
      by (rule hex_value_hex_digit) simp
    ultimately show ?thesis
      using False u by (simp add: encode_byte_def)
  qed
qed

lemma percent_decode_encode: "percent_decode (concat (map encode_byte bs)) = bs"
  by (induction bs) (simp_all add: percent_decode_encode_byte)

text \<open>
  Reading back what was written gives the \<^verbatim>\<open>USVString\<close> of the text, which is the text
  itself when no surrogate stands alone in it. An escape that is not UTF-8 reads as
  U+FFFD.
\<close>

lemma invalid_byte_reads_as_replacement: "decode ''%FF'' = [0xFFFD]"
  by (simp add: decode_def hex_value_def utf8_decode_def utf16_def utf16_units_def)

lemma decode_encode: "decode (encode s) = USVString s"
  by (simp add: decode_def encode_def percent_decode_encode utf8_decode_encode scalars_scalar
      USVString_def)

lemma split_on_absent: "sep \<notin> set a \<Longrightarrow> split_on sep a = [a]"
  by (induction a) auto

lemma split_on_first:
  "sep \<notin> set a \<Longrightarrow> split_on sep (a @ sep # b) = a # split_on sep b"
  by (induction a) auto

lemma serialize_pair_chars:
  "x \<in> set (serialize_pair p) \<Longrightarrow> x \<noteq> CHR ''&'' \<and> x \<noteq> CHR ''#'' \<and> x \<noteq> CHR ''?''"
  by (auto simp: serialize_pair_def dest!: encoded_not_separator)

lemma serialize_pair_nonempty: "serialize_pair p \<noteq> []"
  by (simp add: serialize_pair_def)

lemma parse_serialize_pair:
  "parse_pair (serialize_pair p) = (USVString (fst p), USVString (snd p))"
proof -
  have n: "\<forall>x\<in>set (encode (fst p)). x \<noteq> CHR ''=''"
    using encoded_not_separator by blast
  then have "takeWhile (\<lambda>c. c \<noteq> CHR ''='') (encode (fst p) @ CHR ''='' # encode (snd p)) = encode (fst p)"
    by (simp add: takeWhile_append)
  moreover from n have
    "dropWhile (\<lambda>c. c \<noteq> CHR ''='') (encode (fst p) @ CHR ''='' # encode (snd p)) = CHR ''='' # encode (snd p)"
    by (simp add: dropWhile_append)
  ultimately show ?thesis
    by (simp add: parse_pair_def serialize_pair_def decode_encode)
qed

lemma parse_serialize:
  "parse_urlencoded (serialize ps) = map (\<lambda>p. (USVString (fst p), USVString (snd p))) ps"
proof (induction ps rule: induct_list012)
  case 1
  then show ?case by (simp add: parse_urlencoded_def serialize_def)
next
  case (2 x)
  have "CHR ''&'' \<notin> set (serialize_pair x)" using serialize_pair_chars by blast
  then show ?case
    by (simp add: parse_urlencoded_def serialize_def split_on_absent serialize_pair_nonempty
        parse_serialize_pair)
next
  case (3 x y ys)
  have "CHR ''&'' \<notin> set (serialize_pair x)" using serialize_pair_chars by blast
  then have "split_on CHR ''&'' (serialize (x # y # ys)) =
      serialize_pair x # split_on CHR ''&'' (serialize (y # ys))"
    by (simp add: serialize_def split_on_first)
  with 3 show ?case
    by (simp add: parse_urlencoded_def serialize_pair_nonempty parse_serialize_pair)
qed

lemma serialize_chars:
  "x \<in> set (serialize ps) \<Longrightarrow> x \<noteq> CHR ''#'' \<and> x \<noteq> CHR ''?''"
proof (induction ps rule: induct_list012)
  case 1
  then show ?case by (simp add: serialize_def)
next
  case (2 x)
  then show ?case using serialize_pair_chars by (auto simp: serialize_def)
next
  case (3 x y ys)
  then show ?case using serialize_pair_chars [of _ x] by (auto simp: serialize_def)
qed

lemma query_string_of_root:
  "query_string (CHR ''/'' # CHR ''?'' # serialize ps) = serialize ps"
proof -
  have "\<forall>x\<in>set (serialize ps). x \<noteq> CHR ''#''" using serialize_chars by blast
  then have "takeWhile (\<lambda>c. c \<noteq> CHR ''#'') (serialize ps) = serialize ps"
    by (simp add: takeWhile_eq_all_conv [THEN iffD2])
  then show ?thesis by (simp add: query_string_def)
qed

lemma units_eq_iff: "units a = units b \<longleftrightarrow> a = b"
  using units_inject by blast

lemma query_is_not_status: "units ''query'' \<noteq> units ''status''"
  by (simp add: units_eq_iff)

lemma commit_params_eq:
  "commit_params q s =
     (if q = [] then [] else [(units ''query'', USVString q)]) @
     (if s = [] then [] else [(units ''status'', USVString s)])"
  by (simp add: commit_params_def params_set_def USVString_units query_is_not_status)

lemma searchParams_of_commit_url:
  "searchParams_of_url (commit_url q s) ''query'' = (if q = [] then None else Some (One (USVString q)))"
  "searchParams_of_url (commit_url q s) ''status'' = (if s = [] then None else Some (One (USVString s)))"
  by (simp_all add: searchParams_of_url_def commit_url_def query_string_of_root parse_serialize
      commit_params_eq USVString_units USVString_idem query_is_not_status
      query_is_not_status [symmetric])

lemma utf8_bytes_ascii: "(of_char c :: nat) < 0x80 \<Longrightarrow> utf8_bytes (of_char c) = [c]"
  by (simp add: utf8_bytes_def)

lemma unreserved_ascii: "unreserved c \<Longrightarrow> (of_char c :: nat) < 0x80"
  by (auto simp: unreserved_def)

lemma encode_unreserved: "\<forall>c\<in>set s. unreserved c \<Longrightarrow> encode (units s) = s"
proof (induction s)
  case Nil
  then show ?case by (simp add: encode_def units_def utf8_encode_def)
next
  case (Cons c s)
  then have u: "unreserved c" and ih: "encode (units s) = s" by simp_all
  have "c \<noteq> CHR '' ''" using u by (auto simp: unreserved_def)
  with u ih show ?case
    by (simp add: encode_def scalars_units utf8_encode_def utf8_bytes_ascii [OF unreserved_ascii]
        encode_byte_def)
qed

lemma commit_url_buy_pending:
  "commit_url (units ''buy'') (units ''pending'') = ''/?query=buy&status=pending''"
proof -
  have "encode (units ''buy'') = ''buy''" "encode (units ''pending'') = ''pending''"
    "encode (units ''query'') = ''query''" "encode (units ''status'') = ''status''"
    by (rule encode_unreserved, simp add: unreserved_def)+
  moreover have "units ''buy'' \<noteq> []" "units ''pending'' \<noteq> []" by (simp_all add: units_def)
  ultimately show ?thesis
    by (simp add: commit_url_def commit_params_eq USVString_units serialize_def serialize_pair_def)
qed

lemma Home_sends: "sent (snd (Home net env sp sv)) = sent sv @ [Home_request env sp]"
  by (auto simp: Home_def fetch_def Let_def split: fetch_outcome.splits sum.splits)

text \<open>
  Claim C2, as the code has it. For every query and status in which no surrogate stands
  alone, the URL the synchronizer commits (a field that is empty is left out of it) is
  read back by the page as that query and that status: a parameter is missing from the
  URL exactly when its field is empty, and the page reads a missing parameter as the empty
  string. The page then requests the items with these two values. On the URL
  \<^verbatim>\<open>/?query=buy&status=pending\<close> the page reads \<^verbatim>\<open>buy\<close> and \<^verbatim>\<open>pending\<close> and sends one
  request, for \<^verbatim>\<open>/items?query=buy&status=pending\<close>.
\<close>

theorem filter_round_trip:
  assumes "well_formed q" and "well_formed s"
  shows
    "or_empty (searchParams_of_url (commit_url q s) ''query'') = One q \<and>
     or_empty (searchParams_of_url (commit_url q s) ''status'') = One s \<and>
     (searchParams_of_url (commit_url q s) ''query'' = None) = (q = []) \<and>
     (searchParams_of_url (commit_url q s) ''status'' = None) = (s = []) \<and>
     url (Home_request env (searchParams_of_url (commit_url q s))) =
       units (base_text env) @ units ''/items?query='' @ q @ units ''&status='' @ s \<and>
     or_empty (searchParams_of_url ''/?query=buy&status=pending'' ''query'') = One (units ''buy'') \<and>
     or_empty (searchParams_of_url ''/?query=buy&status=pending'' ''status'') = One (units ''pending'') \<and>
     sent (snd (Home net env (searchParams_of_url ''/?query=buy&status=pending'') sv)) =
       sent sv @ [\<lparr>url = units (base_text env @ ''/items?query=buy&status=pending''),
                   http_method = ''GET'', headers = [], body = None\<rparr>]"
proof -
  have q: "or_empty (searchParams_of_url (commit_url q s) ''query'') = One q"
    if "well_formed q" for q s
    using that by (simp add: searchParams_of_commit_url or_empty_def USVString_well_formed)
  have s: "or_empty (searchParams_of_url (commit_url q s) ''status'') = One s"
    if "well_formed s" for q s
    using that by (simp add: searchParams_of_commit_url or_empty_def USVString_well_formed)
  have b: "or_empty (searchParams_of_url ''/?query=buy&status=pending'' ''query'') = One (units ''buy'')"
    using q [of "units ''buy''" "units ''pending''", OF well_formed_units]
    by (simp only: commit_url_buy_pending)
  have p: "or_empty (searchParams_of_url ''/?query=buy&status=pending'' ''status'') = One (units ''pending'')"
    using s [of "units ''pending''" "units ''buy''", OF well_formed_units]
    by (simp only: commit_url_buy_pending)
  have h: "url (Home_request env sp) =
      units (base_text env) @ units ''/items?query='' @ template_text (or_empty (sp ''query''))
        @ units ''&status='' @ template_text (or_empty (sp ''status''))" for sp
    by (simp add: Home_request_def)
  have r: "Home_request env (searchParams_of_url ''/?query=buy&status=pending'') =
      \<lparr>url = units (base_text env @ ''/items?query=buy&status=pending''),
       http_method = ''GET'', headers = [], body = None\<rparr>"
    unfolding Home_request_def b p by (simp add: units_def)
  show ?thesis
    using q [OF assms(1), of s] s [OF assms(2), of q] b p
    by (simp add: h Home_sends r searchParams_of_commit_url)
qed

theorem filter_round_trip_witness:
  "well_formed (units ''buy'') \<and> well_formed (units ''pending'') \<and>
   or_empty (searchParams_of_url (commit_url (units ''buy'') (units ''pending'')) ''query'') =
     One (units ''buy'') \<and>
   or_empty (searchParams_of_url (commit_url (units ''buy'') (units ''pending'')) ''status'') =
     One (units ''pending'')"
  using filter_round_trip [of "units ''buy''" "units ''pending''", OF well_formed_units well_formed_units]
  by (simp add: well_formed_units)

text \<open>
  Claim C2 as stated fails on a query that is one high surrogate with no low surrogate
  after it: \<^verbatim>\<open>URLSearchParams.set\<close> stores U+FFFD in its place, the URL carries
  \<^verbatim>\<open>%EF%BF%BD\<close>, and the page reads U+FFFD.
\<close>

theorem lone_surrogate_counterexample:
  "or_empty (searchParams_of_url (commit_url [0xD800] []) ''query'') = One [0xFFFD] \<and>
   or_empty (searchParams_of_url (commit_url [0xD800] []) ''query'') \<noteq> One [0xD800]"
proof -
  have "USVString [0xD800] = [0xFFFD]"
    by (simp add: USVString_def lone_def high_surrogate_def low_surrogate_def utf16_def
        utf16_units_def)
  then show ?thesis by (simp add: searchParams_of_commit_url or_empty_def)
qed

section \<open>Properties of the filter synchronizer\<close>

text \<open>
  An edit that changes its field clears the timeout of the edit before it and leaves one
  timeout of 500 ms pending, whose callback holds the values of the two states; neither
  an edit nor a wait shorter than the time left touches the router.
\<close>

lemma mount_owned: "owned (mount q v r)"
  by (simp add: mount_def effect_def setTimeout_def owned_def)

lemma cleanup_owned: "owned s \<Longrightarrow> timers (cleanup s) = []"
  by (cases "debounce s")
    (auto simp: owned_def cleanup_def clearTimeout_def list_all_iff filter_empty_conv)

lemma cleanup_fields:
  "query (cleanup s) = query s \<and> filter_status (cleanup s) = filter_status s \<and>
   nav (cleanup s) = nav s"
  by (simp add: cleanup_def clearTimeout_def split: option.splits)

lemma effect_armed: "timers s = [] \<Longrightarrow> armed (effect s)"
  by (simp add: effect_def setTimeout_def armed_def)

lemma effect_fields:
  "query (effect s) = query s \<and> filter_status (effect s) = filter_status s \<and> nav (effect s) = nav s"
  by (simp add: effect_def setTimeout_def)

lemma armed_owned: "armed s \<Longrightarrow> owned s"
  by (auto simp: armed_def owned_def split: list.splits)

lemma owned_field_update:
  "owned (s\<lparr>query := q\<rparr>) = owned s" "owned (s\<lparr>filter_status := v\<rparr>) = owned s"
  by (simp_all add: owned_def)

lemma apply_edit_nav: "nav (apply_edit e s) = nav s"
  by (cases e) (simp_all add: setQuery_def setStatus_def effect_fields cleanup_fields)

lemma apply_edit_values:
  "(query (apply_edit e s), filter_status (apply_edit e s)) = final_values [e] (query s, filter_status s)"
  by (cases e) (simp_all add: setQuery_def setStatus_def effect_fields cleanup_fields)

lemma apply_edit_arms: "owned s \<Longrightarrow> changes e s \<Longrightarrow> armed (apply_edit e s)"
  by (cases e)
    (simp_all add: setQuery_def setStatus_def effect_armed cleanup_owned owned_field_update)

lemma apply_edit_owned: "owned s \<Longrightarrow> owned (apply_edit e s)"
proof (cases "changes e s")
  case True
  assume "owned s"
  then show ?thesis using True by (intro armed_owned [OF apply_edit_arms])
next
  case False
  assume "owned s"
  with False show ?thesis by (cases e) (simp_all add: setQuery_def setStatus_def)
qed

lemma elapse_values: "query (elapse g s) = query s \<and> filter_status (elapse g s) = filter_status s"
  by (simp add: elapse_def)

lemma elapse_owned: "owned s \<Longrightarrow> owned (elapse g s)"
  by (auto simp: owned_def elapse_def list_all_iff)

lemma elapse_early: "armed s \<Longrightarrow> g < 500 \<Longrightarrow> nav (elapse g s) = nav s"
  by (auto simp: armed_def elapse_def split: list.splits)

lemma elapse_due:
  "armed s \<Longrightarrow> 500 \<le> d \<Longrightarrow>
   nav (elapse d s) = commit (query s) (filter_status s) (nav s) \<and> timers (elapse d s) = []"
  by (auto simp: armed_def elapse_def fire_def split: list.splits)

lemma elapse_idle: "timers s = [] \<Longrightarrow> nav (elapse d s) = nav s \<and> timers (elapse d s) = []"
  by (simp add: elapse_def)

text \<open>With no edit at all, the timeout set on mounting commits the initial values.\<close>

lemma mount_commits: "500 \<le> d \<Longrightarrow> nav (elapse d (mount q v r)) = commit q v r"
  by (simp add: mount_def effect_def setTimeout_def elapse_def fire_def)

text \<open>Whatever the edits and the waits, the only timer pending is the last one set.\<close>

lemma history_owned: "owned s \<Longrightarrow> owned (history evs s)"
proof (induction evs arbitrary: s)
  case Nil
  then show ?case by simp
next
  case (Cons ev evs)
  have "owned (step ev s)"
    using Cons.prems by (cases ev) (simp_all add: apply_edit_owned elapse_owned)
  then show ?case by (simp add: Cons.IH)
qed

lemma final_values_append:
  "final_values (es @ es') f = final_values es' (final_values es f)"
  by (induction es f rule: final_values.induct) simp_all

lemma burst_stays_armed:
  "armed s \<Longrightarrow> burst es s \<Longrightarrow>
   armed (run es s) \<and> nav (run es s) = nav s \<and>
   (query (run es s), filter_status (run es s)) = final_values (map snd es) (query s, filter_status s)"
proof (induction es arbitrary: s)
  case Nil
  then show ?case by simp
next
  case (Cons ge es)
  obtain g e where ge: "ge = (g, e)" by (cases ge)
  let ?s1 = "apply_edit e (elapse g s)"
  from Cons.prems ge have g: "g < 500" and c: "changes e (elapse g s)" and b: "burst es ?s1"
    by simp_all
  have o: "owned (elapse g s)"
    using Cons.prems(1) by (intro elapse_owned armed_owned)
  have a: "armed ?s1" by (rule apply_edit_arms [OF o c])
  have n: "nav ?s1 = nav s"
    using Cons.prems(1) g by (simp add: apply_edit_nav elapse_early)
  have v: "(query ?s1, filter_status ?s1) = final_values [e] (query s, filter_status s)"
    by (simp add: apply_edit_values elapse_values)
  from Cons.IH [OF a b] n v ge show ?case
    using final_values_append [of "[e]" "map snd es" "(query s, filter_status s)"]
    by simp
qed

text \<open>
  The cleanup is what makes the edits coalesce. The effect itself only adds a timeout:
  the ones set before stay pending. Were the effect run again without its cleanup, both
  timeouts would commit: here on a component just mounted whose query is set to
  \<^verbatim>\<open>m\<close>.
\<close>

lemma effect_adds_a_timeout:
  "timers (effect s) =
     timers s @ [\<lparr>handle = next_handle s, remaining = 500, cb_query = query s,
                  cb_status = filter_status s\<rparr>]"
  by (simp add: effect_def setTimeout_def)

lemma commit_url_query_only:
  "\<forall>c\<in>set q. unreserved c \<Longrightarrow> q \<noteq> [] \<Longrightarrow> commit_url (units q) [] = ''/?query='' @ q"
proof -
  assume u: "\<forall>c\<in>set q. unreserved c" and n: "q \<noteq> []"
  have "encode (units ''query'') = ''query''"
    by (rule encode_unreserved) (simp add: unreserved_def)
  moreover have "units q \<noteq> []" using n by (simp add: units_def)
  ultimately show ?thesis
    using encode_unreserved [OF u]
    by (simp add: commit_url_def commit_params_eq USVString_units serialize_def serialize_pair_def)
qed

lemma effect_without_cleanup_commits_twice:
  "replaced (nav (elapse 500
     (effect ((mount [] [] \<lparr>behind = [], current = ''/'', replaced = []\<rparr>)\<lparr>query := units ''m''\<rparr>))))
   = [''/?'', ''/?query=m''] \<and>
   replaced (nav (elapse 500
     (effect (cleanup ((mount [] [] \<lparr>behind = [], current = ''/'', replaced = []\<rparr>)\<lparr>query := units ''m''\<rparr>)))))
   = [''/?query=m'']"
proof -
  have u: "commit_url (units ''m'') [] = ''/?query=m''"
    using commit_url_query_only [of "''m''"] by (simp add: unreserved_def)
  have e: "commit_url [] [] = ''/?''"
    by (simp add: commit_url_def commit_params_def serialize_def)
  show ?thesis
    by (simp add: mount_def effect_def cleanup_def setTimeout_def clearTimeout_def elapse_def
        fire_def commit_def router_replace_def u e)
qed

text \<open>
  Claim C1. Take the component after any history of edits and waits since it was
  mounted, and then any run of edits of the query and the status, each changing its field
  and each less than 500 ms after the one before. While the run lasts, and for less than
  500 ms after its last edit, the router is not touched. Once 500 ms have passed without
  an edit, \<^verbatim>\<open>router.replace\<close> has been called exactly once: the URL is that of the last
  value of each field, with \<^verbatim>\<open>query\<close> in it only if it is not empty and \<^verbatim>\<open>status\<close> only
  if it is not empty; it takes the place of the current entry, the entries behind it stay
  as they were, and no later wait commits anything more.
\<close>

theorem debounce_commits_once:
  assumes "s = history evs (mount q0 v0 r0)"
    and "changes e s" and "burst es (apply_edit e s)" and "500 \<le> d"
  shows
    "(let s1 = run es (apply_edit e s);
          s2 = elapse d s1;
          f = final_values (e # map snd es) (query s, filter_status s);
          u = commit_url (fst f) (snd f)
      in nav s1 = nav s \<and>
         (\<forall>d' < 500. nav (elapse d' s1) = nav s) \<and>
         replaced (nav s2) = replaced (nav s) @ [u] \<and>
         current (nav s2) = u \<and>
         behind (nav s2) = behind (nav s) \<and>
         (\<forall>d'. nav (elapse d' s2) = nav s2) \<and>
         u = ''/?'' @ serialize ((if fst f = [] then [] else [(units ''query'', USVString (fst f))]) @
                                (if snd f = [] then [] else [(units ''status'', USVString (snd f))])))"
proof -
  define s0 where "s0 = apply_edit e s"
  define s1 where "s1 = run es s0"
  define f where "f = final_values (e # map snd es) (query s, filter_status s)"
  have o: "owned s"
    unfolding assms(1) by (rule history_owned [OF mount_owned])
  have armed0: "armed s0"
    unfolding s0_def by (rule apply_edit_arms [OF o assms(2)])
  have b: "burst es s0" using assms(3) by (simp add: s0_def)
  note inv = burst_stays_armed [OF armed0 b, folded s1_def]
  have armed1: "armed s1" using inv by simp
  have nav1: "nav s1 = nav s"
    using inv by (simp add: s0_def apply_edit_nav)
  have "(query s0, filter_status s0) = final_values [e] (query s, filter_status s)"
    unfolding s0_def by (rule apply_edit_values)
  then have vals: "(query s1, filter_status s1) = f"
    using inv final_values_append [of "[e]" "map snd es" "(query s, filter_status s)"]
    by (simp add: f_def)
  then have q: "query s1 = fst f" and v: "filter_status s1 = snd f"
    by auto
  have early: "nav (elapse d' s1) = nav s" if "d' < 500" for d'
    using elapse_early [OF armed1 that] nav1 by simp
  have due: "nav (elapse d s1) = commit (fst f) (snd f) (nav s)" "timers (elapse d s1) = []"
    using elapse_due [OF armed1 assms(4)] nav1 q v by simp_all
  have later: "nav (elapse d' (elapse d s1)) = nav (elapse d s1)" for d'
    by (simp add: elapse_idle [OF due(2)])
  have u: "commit_url (fst f) (snd f) =
      ''/?'' @ serialize ((if fst f = [] then [] else [(units ''query'', USVString (fst f))]) @
                          (if snd f = [] then [] else [(units ''status'', USVString (snd f))]))"
    unfolding commit_url_def commit_params_eq ..
  show ?thesis
    unfolding Let_def s0_def [symmetric] s1_def [symmetric] f_def [symmetric]
    using nav1 early later u by (simp add: due(1) commit_def router_replace_def)
qed

theorem debounce_commits_once_witness:
  "changes (Edit_query (units ''m''))
     (history [] (mount [] [] \<lparr>behind = [''/about''], current = ''/'', replaced = []\<rparr>)) \<and>
   burst [(120, Edit_query (units ''mi'')), (300, Edit_status (units ''pending''))]
     (apply_edit (Edit_query (units ''m''))
        (history [] (mount [] [] \<lparr>behind = [''/about''], current = ''/'', replaced = []\<rparr>))) \<and>
   (500::nat) \<le> 500 \<and>
   replaced (nav (elapse 500
          (run [(120, Edit_query (units ''mi'')), (300, Edit_status (units ''pending''))]
             (apply_edit (Edit_query (units ''m''))
                (history [] (mount [] [] \<lparr>behind = [''/about''], current = ''/'', replaced = []\<rparr>))))))
     = [''/?query=mi&status=pending'']"
proof -
  let ?r = "\<lparr>behind = [''/about''], current = ''/'', replaced = []\<rparr>"
  let ?s = "history [] (mount [] [] ?r)"
  let ?es = "[(120, Edit_query (units ''mi'')), (300, Edit_status (units ''pending''))]"
  have n: "units ''m'' \<noteq> []" "units ''mi'' \<noteq> units ''m''" "units ''pending'' \<noteq> []"
    "units ''mi'' \<noteq> []"
    by (simp_all add: units_eq_iff) (simp_all add: units_def)
  have c: "changes (Edit_query (units ''m'')) ?s"
    using n by (simp add: mount_def effect_def setTimeout_def)
  have b: "burst ?es (apply_edit (Edit_query (units ''m'')) ?s)"
    using n
    by (simp add: mount_def effect_def cleanup_def setTimeout_def clearTimeout_def setQuery_def
        setStatus_def elapse_def)
  have d: "(500::nat) \<le> 500" by simp
  have "encode (units ''mi'') = ''mi''" "encode (units ''pending'') = ''pending''"
    "encode (units ''query'') = ''query''" "encode (units ''status'') = ''status''"
    by (rule encode_unreserved, simp add: unreserved_def)+
  then have u: "commit_url (units ''mi'') (units ''pending'') = ''/?query=mi&status=pending''"
    using n by (simp add: commit_url_def commit_params_eq USVString_units serialize_def
        serialize_pair_def)
  have r: "replaced (nav ?s) = []"
    by (simp add: mount_def effect_def setTimeout_def)
  from debounce_commits_once [OF refl c b d] c b d u r show ?thesis
    by (simp add: Let_def)
qed

end
